theory Spec2Isabelle
  imports
    Main
    "HOL-Library.Word"
    "HOL-Library.Char_ord"
    "HOL-Library.List_Lexorder"
    "HOL-Library.AList"
    "HOL-Library.Multiset"
begin

section \<open>bqwrapper: loading into and dumping from BigQuery\<close>

text \<open>
  A shallow embedding of \<^verbatim>\<open>core.go\<close> and \<^verbatim>\<open>types.go\<close> of package
  \<^verbatim>\<open>bqwrapper\<close>. Go strings are byte strings (\<^typ>\<open>string\<close>), compared bytewise.
  A Go \<^verbatim>\<open>error\<close> value is its message; a run-time panic is kept apart from it.
\<close>

datatype error = Error string | Panic string

subsection \<open>Schema flattening: \<^verbatim>\<open>walkFields\<close>\<close>

text \<open>
  \<^verbatim>\<open>bigquery.TableFieldSchema\<close>, with the fields that the package reads:
  \<^verbatim>\<open>Name\<close>, \<^verbatim>\<open>Type\<close> and the nested \<^verbatim>\<open>Fields\<close>.
\<close>

datatype TableFieldSchema =
  TableFieldSchema (Name: string) (Type: string) (Fields: "TableFieldSchema list")

text \<open>
  \<^verbatim>\<open>
  func walkFields(prefix string, schema *bigquery.TableFieldSchema) (string, string) {
      if schema.Type != "RECORD" {
          if prefix == "" { return schema.Name, schema.Type }
          else { return prefix + "." + schema.Name, schema.Type }
      }
      for _, field := range schema.Fields {
          return walkFields(field.Name, field)
      }
      return "", ""
  }
  \<close>
  The \<^verbatim>\<open>for\<close> loop returns in its first iteration, so it is a case distinction on
  the list of nested fields.
\<close>

fun walkFields :: "string \<Rightarrow> TableFieldSchema \<Rightarrow> string \<times> string" where
  "walkFields prefix (TableFieldSchema nm ty fs) =
     (if ty \<noteq> ''RECORD'' then
        (if prefix = '''' then (nm, ty) else (prefix @ ''.'' @ nm, ty))
      else (case fs of
              [] \<Rightarrow> ('''', '''')
            | field # _ \<Rightarrow> walkFields (Name field) field))"

subsection \<open>Dynamic values, records and the libraries\<close>

text \<open>
  A cell of a result row holds \<^verbatim>\<open>V interface{}\<close>, decoded from JSON: \<^verbatim>\<open>nil\<close>, a
  string, or some other dynamic value (an object for a nested record, an array for a
  repeated field). The type of the other values is a parameter.
\<close>

datatype 'o iface = INil | IString string | IOther 'o

text \<open>
  The values \<^verbatim>\<open>toRows\<close> stores in a record (\<^verbatim>\<open>map[string]interface{}\<close>): \<^verbatim>\<open>nil\<close>,
  the cell's own value, an \<^verbatim>\<open>int64\<close>, a \<^verbatim>\<open>float64\<close> or a \<^verbatim>\<open>bool\<close>. The type of
  64-bit floats is a parameter: nothing here computes with them.
\<close>

datatype ('f, 'o) val =
  VNil | VString string | VInt64 "64 word" | VFloat64 'f | VBool bool | VOther 'o

text \<open>
  A Go map is an association list with distinct keys. The order of the list stands for
  the order in which \<^verbatim>\<open>range\<close> happens to visit the keys; \<^verbatim>\<open>m[k] = v\<close> is
  \<^const>\<open>AList.update\<close> and a lookup is \<^const>\<open>map_of\<close>.
\<close>

type_synonym ('f, 'o) gomap = "(string \<times> ('f, 'o) val) list"

text \<open>\<^verbatim>\<open>type fieldType struct { name string; ftype string }\<close> of \<^verbatim>\<open>types.go\<close>.\<close>

record fieldType =
  name :: string
  ftype :: string

text \<open>
  The functions of the Go standard library and of the Google packages that the code
  calls are parameters of the model. A library error is its message.
  \<^item> \<^verbatim>\<open>strconv.ParseInt(s, base, bitSize)\<close>, \<^verbatim>\<open>strconv.ParseFloat(s, bitSize)\<close>,
    \<^verbatim>\<open>strconv.ParseBool(s)\<close>;
  \<^item> \<^verbatim>\<open>fmt.Sprintf("%v", val)\<close>;
  \<^item> \<^verbatim>\<open>json.MarshalIndent(data, prefix, indent)\<close> and the bytes that
    \<^verbatim>\<open>json.NewEncoder(f).Encode(data)\<close> sends to \<^verbatim>\<open>f\<close>, or its marshalling error;
  \<^item> the bytes that a \<^verbatim>\<open>csv.Writer\<close> with the given \<^verbatim>\<open>Comma\<close> (a rune, as its code
    point) sends to its file in \<^verbatim>\<open>WriteAll(lines)\<close>;
  \<^item> \<^verbatim>\<open>google.JWTConfigFromJSON(by, scope)\<close>, as the error it returns, if any.
\<close>

record ('f, 'o) lib =
  ParseInt :: "string \<Rightarrow> nat \<Rightarrow> nat \<Rightarrow> string + 64 word"
  ParseFloat :: "string \<Rightarrow> nat \<Rightarrow> string + 'f"
  ParseBool :: "string \<Rightarrow> string + bool"
  Sprintf_v :: "('f, 'o) val \<Rightarrow> string"
  MarshalIndent :: "('f, 'o) gomap list \<Rightarrow> string \<Rightarrow> string \<Rightarrow> string + string"
  Encode :: "('f, 'o) gomap list \<Rightarrow> string + string"
  WriteAll :: "nat \<Rightarrow> string list list \<Rightarrow> string"
  JWTConfigFromJSON :: "string \<Rightarrow> string option"

subsection \<open>Cell decoding: \<^verbatim>\<open>toRows\<close>\<close>

text \<open>\<^verbatim>\<open>fmt.Errorf("Invalid %s value (%s) - %s", names[i].name, cell.V, err)\<close>\<close>

definition Invalid :: "string \<Rightarrow> string \<Rightarrow> string \<Rightarrow> error" where
  "Invalid nm raw err = Error (''Invalid '' @ nm @ '' value ('' @ raw @ '') - '' @ err)"

text \<open>
  The body of the inner loop of \<^verbatim>\<open>toRows\<close>, for the cell at position \<open>i\<close> of a row:
  \<^verbatim>\<open>
  if cell.V == nil { result[names[i].name] = nil; continue }
  switch names[i].ftype {
  case "STRING":  result[names[i].name] = cell.V
  case "INTEGER", "TIMESTAMP":
      if ival, err = strconv.ParseInt(cell.V.(string), 10, 64); err != nil {
          return nil, fmt.Errorf("Invalid %s value (%s) - %s", names[i].name, cell.V, err) }
      result[names[i].name] = ival
  case "FLOAT":   ... strconv.ParseFloat(cell.V.(string), 64) ...
  case "BOOLEAN": ... strconv.ParseBool(cell.V.(string)) ...
  default:
      return nil, fmt.Errorf("Unsupported field type %s on %s", names[i].ftype, names[i].name)
  }
  \<close>
  \<^verbatim>\<open>names[i]\<close> panics when the row has more cells than the schema has fields, and the
  type assertion \<^verbatim>\<open>cell.V.(string)\<close> panics on a value that is not a string.
\<close>

definition toRows_cell ::
  "('f, 'o) lib \<Rightarrow> fieldType list \<Rightarrow> nat \<Rightarrow> 'o iface \<Rightarrow> ('f, 'o) gomap
     \<Rightarrow> error + ('f, 'o) gomap" where
  "toRows_cell lib names i V result =
     (if length names \<le> i then Inl (Panic ''index out of range'')
      else
        let nm = name (names ! i); ty = ftype (names ! i) in
        (case V of
           INil \<Rightarrow> Inr (AList.update nm VNil result)
         | IString s \<Rightarrow>
             if ty = ''STRING'' then Inr (AList.update nm (VString s) result)
             else if ty = ''INTEGER'' \<or> ty = ''TIMESTAMP'' then
               (case ParseInt lib s 10 64 of
                  Inl err \<Rightarrow> Inl (Invalid nm s err)
                | Inr ival \<Rightarrow> Inr (AList.update nm (VInt64 ival) result))
             else if ty = ''FLOAT'' then
               (case ParseFloat lib s 64 of
                  Inl err \<Rightarrow> Inl (Invalid nm s err)
                | Inr fval \<Rightarrow> Inr (AList.update nm (VFloat64 fval) result))
             else if ty = ''BOOLEAN'' then
               (case ParseBool lib s of
                  Inl err \<Rightarrow> Inl (Invalid nm s err)
                | Inr bval \<Rightarrow> Inr (AList.update nm (VBool bval) result))
             else Inl (Error (''Unsupported field type '' @ ty @ '' on '' @ nm))
         | IOther x \<Rightarrow>
             if ty = ''STRING'' then Inr (AList.update nm (VOther x) result)
             else if ty = ''INTEGER'' \<or> ty = ''TIMESTAMP'' \<or> ty = ''FLOAT'' \<or> ty = ''BOOLEAN''
             then Inl (Panic ''interface conversion: interface {} is not string'')
             else Inl (Error (''Unsupported field type '' @ ty @ '' on '' @ nm))))"

text \<open>\<^verbatim>\<open>for i, cell = range row.F { ... }\<close>: a row is the list of its cells' values.\<close>

fun toRows_cells ::
  "('f, 'o) lib \<Rightarrow> fieldType list \<Rightarrow> nat \<Rightarrow> 'o iface list \<Rightarrow> ('f, 'o) gomap
     \<Rightarrow> error + ('f, 'o) gomap" where
  "toRows_cells lib names i [] result = Inr result"
| "toRows_cells lib names i (cell # cells) result =
     (case toRows_cell lib names i cell result of
        Inl e \<Rightarrow> Inl e
      | Inr result' \<Rightarrow> toRows_cells lib names (Suc i) cells result')"

text \<open>
  \<^verbatim>\<open>for _, row = range rows { result = make(...); ...; results = append(results, result) }\<close>
\<close>

fun toRows_rows ::
  "('f, 'o) lib \<Rightarrow> fieldType list \<Rightarrow> 'o iface list list \<Rightarrow> ('f, 'o) gomap list
     \<Rightarrow> error + ('f, 'o) gomap list" where
  "toRows_rows lib names [] results = Inr results"
| "toRows_rows lib names (row # rows) results =
     (case toRows_cells lib names 0 row [] of
        Inl e \<Rightarrow> Inl e
      | Inr result \<Rightarrow> toRows_rows lib names rows (results @ [result]))"

text \<open>
  \<^verbatim>\<open>toRows(fields, rows)\<close>: the field-type list is computed once, by
  \<^verbatim>\<open>walkFields("", field)\<close> on every top-level field, then the rows are decoded.
\<close>

definition toRows ::
  "('f, 'o) lib \<Rightarrow> TableFieldSchema list \<Rightarrow> 'o iface list list
     \<Rightarrow> error + ('f, 'o) gomap list" where
  "toRows lib flds rows =
     (let names = map (\<lambda>field. case walkFields '''' field of
                                (n, t) \<Rightarrow> \<lparr>name = n, ftype = t\<rparr>) flds
      in toRows_rows lib names rows [])"

subsection \<open>An instance of the libraries\<close>

text \<open>
  A small instance of the library parameters, used to run the model on concrete inputs.
  Floats are \<^typ>\<open>int option\<close> with \<^const>\<open>None\<close> for NaN, and there are no other dynamic
  values. It covers what the examples need and is not a model of the whole packages.
\<close>

fun ex_digits :: "string \<Rightarrow> nat \<Rightarrow> nat option" where
  "ex_digits [] acc = Some acc"
| "ex_digits (c # cs) acc =
     (if CHR ''0'' \<le> c \<and> c \<le> CHR ''9''
      then ex_digits cs (10 * acc + (of_char c - 48)) else None)"

definition ex_number :: "string \<Rightarrow> int option" where
  "ex_number s =
     (case s of
        [] \<Rightarrow> None
      | c # r \<Rightarrow>
          if c = CHR ''-'' then (if r = [] then None else map_option (\<lambda>n. - int n) (ex_digits r 0))
          else if c = CHR ''+'' then (if r = [] then None else map_option int (ex_digits r 0))
          else map_option int (ex_digits s 0))"

definition ex_ParseInt :: "string \<Rightarrow> nat \<Rightarrow> nat \<Rightarrow> string + 64 word" where
  "ex_ParseInt s base bitSize =
     (case ex_number s of
        None \<Rightarrow> Inl (''strconv.ParseInt: parsing '' @ s @ '': invalid syntax'')
      | Some n \<Rightarrow>
          if n < - (2 ^ 63) \<or> 2 ^ 63 \<le> n
          then Inl (''strconv.ParseInt: parsing '' @ s @ '': value out of range'')
          else Inr (word_of_int n))"

definition ex_ParseFloat :: "string \<Rightarrow> nat \<Rightarrow> string + int option" where
  "ex_ParseFloat s bitSize =
     (if s = ''NaN'' then Inr None
      else case ex_number s of
        None \<Rightarrow> Inl (''strconv.ParseFloat: parsing '' @ s @ '': invalid syntax'')
      | Some n \<Rightarrow> Inr (Some n))"

definition ex_ParseBool :: "string \<Rightarrow> string + bool" where
  "ex_ParseBool s =
     (if s \<in> set [''1'', ''t'', ''T'', ''TRUE'', ''true'', ''True''] then Inr True
      else if s \<in> set [''0'', ''f'', ''F'', ''FALSE'', ''false'', ''False''] then Inr False
      else Inl (''strconv.ParseBool: parsing '' @ s @ '': invalid syntax''))"

definition ex_Sprintf_v :: "(int option, unit) val \<Rightarrow> string" where
  "ex_Sprintf_v v =
     (case v of
        VNil \<Rightarrow> ''<nil>''
      | VString s \<Rightarrow> s
      | VInt64 w \<Rightarrow> (if w = 0 then ''0'' else if w = 1 then ''1'' else ''<int>'')
      | VFloat64 f \<Rightarrow> (if f = None then ''NaN'' else ''<float>'')
      | VBool b \<Rightarrow> (if b then ''true'' else ''false'')
      | VOther x \<Rightarrow> ''<other>'')"

definition ex_unsupported :: "(int option, unit) gomap list \<Rightarrow> bool" where
  "ex_unsupported data = list_ex (\<lambda>r. list_ex (\<lambda>kv. snd kv = VFloat64 None) r) data"

definition ex_json :: "(int option, unit) gomap list \<Rightarrow> string" where
  "ex_json data =
     ''['' @ concat (map (\<lambda>r. ''{'' @ concat (map (\<lambda>kv. fst kv @ '':'' @
        ex_Sprintf_v (snd kv) @ '','') r) @ ''}'') data) @ '']''"

definition ex_MarshalIndent ::
  "(int option, unit) gomap list \<Rightarrow> string \<Rightarrow> string \<Rightarrow> string + string" where
  "ex_MarshalIndent data prefix indent =
     (if ex_unsupported data then Inl ''json: unsupported value: NaN'' else Inr (ex_json data))"

definition ex_Encode :: "(int option, unit) gomap list \<Rightarrow> string + string" where
  "ex_Encode data =
     (if ex_unsupported data then Inl ''json: unsupported value: NaN''
      else Inr (ex_json data @ [CHR 0x0A]))"

fun ex_join :: "char \<Rightarrow> string list \<Rightarrow> string" where
  "ex_join c [] = []"
| "ex_join c [x] = x"
| "ex_join c (x # y # ys) = x @ c # ex_join c (y # ys)"

definition ex_WriteAll :: "nat \<Rightarrow> string list list \<Rightarrow> string" where
  "ex_WriteAll comma lines = concat (map (\<lambda>l. ex_join (char_of comma) l @ [CHR 0x0A]) lines)"

definition ex_lib :: "(int option, unit) lib" where
  "ex_lib = \<lparr> ParseInt = ex_ParseInt, ParseFloat = ex_ParseFloat, ParseBool = ex_ParseBool,
     Sprintf_v = ex_Sprintf_v, MarshalIndent = ex_MarshalIndent, Encode = ex_Encode,
     WriteAll = ex_WriteAll, JWTConfigFromJSON = (\<lambda>by. None) \<rparr>"


subsection \<open>The BigQuery service\<close>

text \<open>\<^verbatim>\<open>%d\<close> of a length: the decimal digits of a natural number.\<close>

fun fmt_d :: "nat \<Rightarrow> string" where
  "fmt_d n =
     (if n < 10 then [char_of (48 + n)]
      else fmt_d (n div 10) @ [char_of (48 + n mod 10)])"

text \<open>
  The responses of \<^verbatim>\<open>google.golang.org/api/bigquery/v2\<close>, with the fields the package
  reads. A field that is a pointer to a nested object is an \<^typ>\<open>'a option\<close>, \<^const>\<open>None\<close>
  for \<^verbatim>\<open>nil\<close>; the elements of a slice of pointers are taken to be present. An
  \<^verbatim>\<open>ErrorProto\<close> is its message.
\<close>

record JobStatus =
  JobStatus_Errors :: "string list"
  JobStatus_State :: string

record Job =
  Job_Status :: "JobStatus option"

record JobReference =
  JobId :: string
  ProjectId :: string

record TableSchema =
  Schema_Fields :: "TableFieldSchema list"

text \<open>\<^verbatim>\<open>TotalRows\<close> is a \<^verbatim>\<open>uint64\<close>; a row (\<^verbatim>\<open>TableRow.F\<close>) is the list of its cells.\<close>

record 'o QueryResponse =
  QR_Errors :: "string list"
  QR_JobReference :: "JobReference option"
  QR_PageToken :: string
  QR_Rows :: "'o iface list list"
  QR_Schema :: "TableSchema option"
  QR_TotalRows :: "64 word"

record 'o GetQueryResultsResponse =
  GQR_Errors :: "string list"
  GQR_PageToken :: string
  GQR_Rows :: "'o iface list list"

record QueryRequest =
  Kind :: string
  Query :: string
  TimeoutMs :: "64 word"
  UseQueryCache :: "bool option"

record DatasetReference =
  DatasetId :: string

record DatasetListDatasets =
  Datasets_DatasetReference :: "DatasetReference option"

record DatasetList =
  Datasets :: "DatasetListDatasets list"
  NextPageToken :: string

text \<open>
  The remote service behind a \<^verbatim>\<open>*bigquery.Service\<close>: every call's \<^verbatim>\<open>Do()\<close> takes the
  state \<open>'st\<close> of the service and returns the response, or the error's message, and the
  state after the call.
  \<^item> \<^verbatim>\<open>bq.Jobs.Get(pid, jid).Do()\<close>
  \<^item> \<^verbatim>\<open>bq.Jobs.Query(projectID, conf).Do()\<close>
  \<^item> \<^verbatim>\<open>bq.Jobs.GetQueryResults(projectID, jobID)\<close> with \<^verbatim>\<open>PageToken(token)\<close> and
    \<^verbatim>\<open>StartIndex(index)\<close>
  \<^item> \<^verbatim>\<open>bq.Datasets.List(projectID)\<close>, with \<^verbatim>\<open>PageToken(token)\<close> when a token is set
    (\<^const>\<open>None\<close> for the first request, which sets none)
  \<^item> \<^verbatim>\<open>bq.Datasets.Insert(projectID, &bigquery.Dataset{DatasetReference: {DatasetId: id}})\<close>,
    as the error it returns, if any.
\<close>

record ('o, 'st) bq =
  Jobs_Get :: "string \<Rightarrow> string \<Rightarrow> 'st \<Rightarrow> (string + Job) \<times> 'st"
  Jobs_Query :: "string \<Rightarrow> QueryRequest \<Rightarrow> 'st \<Rightarrow> (string + 'o QueryResponse) \<times> 'st"
  Jobs_GetQueryResults ::
    "string \<Rightarrow> string \<Rightarrow> string \<Rightarrow> 64 word \<Rightarrow> 'st \<Rightarrow> (string + 'o GetQueryResultsResponse) \<times> 'st"
  Datasets_List :: "string \<Rightarrow> string option \<Rightarrow> 'st \<Rightarrow> (string + DatasetList) \<times> 'st"
  Datasets_Insert :: "string \<Rightarrow> string \<Rightarrow> 'st \<Rightarrow> string option \<times> 'st"

subsection \<open>Waiting for a load job: \<^verbatim>\<open>jobDone\<close> and the polling loop of \<^verbatim>\<open>Load\<close>\<close>

text \<open>
  \<^verbatim>\<open>
  func jobDone(bq *bigquery.Service, pid, jid string) (bool, error) {
      call := bq.Jobs.Get(pid, jid)
      res, err := call.Do()
      if err != nil { return false, err }
      if len(res.Status.Errors) != 0 {
          return false, fmt.Errorf("%d errors returned", len(res.Status.Errors)) }
      switch res.Status.State {
      case "PENDING", "RUNNING": return false, nil
      case "DONE":               return true, nil
      }
      return false, fmt.Errorf("Unknown job status returned - %s (%s,%s)",
          res.Status.State, pid, jid)
  }
  \<close>
  The boolean is \<^verbatim>\<open>false\<close> with every error, so the pair is a sum.
\<close>

definition jobDone ::
  "('o, 'st) bq \<Rightarrow> string \<Rightarrow> string \<Rightarrow> 'st \<Rightarrow> (error + bool) \<times> 'st" where
  "jobDone svc pid jid st =
     (case Jobs_Get svc pid jid st of
        (Inl err, st') \<Rightarrow> (Inl (Error err), st')
      | (Inr res, st') \<Rightarrow>
          (case Job_Status res of
             None \<Rightarrow> (Inl (Panic ''nil pointer dereference''), st')
           | Some status \<Rightarrow>
               if length (JobStatus_Errors status) \<noteq> 0
               then (Inl (Error (fmt_d (length (JobStatus_Errors status)) @ '' errors returned'')), st')
               else if JobStatus_State status = ''PENDING'' \<or> JobStatus_State status = ''RUNNING''
               then (Inr False, st')
               else if JobStatus_State status = ''DONE'' then (Inr True, st')
               else (Inl (Error (''Unknown job status returned - '' @ JobStatus_State status
                                  @ '' ('' @ pid @ '','' @ jid @ '')'')), st')))"

text \<open>
  The end of \<^verbatim>\<open>Load\<close>:
  \<^verbatim>\<open>
  tick := time.NewTicker(3 * time.Second)
  defer tick.Stop()
  var done bool
  for {
      select {
      case <-tick.C:
          if done, err = jobDone(bq, projectID, job); err != nil { return err }
          if done { return nil }
      }
  }
  \<close>
  Every iteration waits for the next tick and then asks for the job's status once. The
  loop has no other exit, so it is a partial function: \<^const>\<open>None\<close> is a loop
  that never returns. The clock is the number of seconds waited, three for each tick.
\<close>

partial_function (option) Load_poll ::
  "('o, 'st) bq \<Rightarrow> string \<Rightarrow> string \<Rightarrow> 'st \<Rightarrow> nat \<Rightarrow> (error option \<times> 'st \<times> nat) option" where
  "Load_poll svc projectID job st seconds =
     (case jobDone svc projectID job st of
        (Inl err, st') \<Rightarrow> Some (Some err, st', seconds + 3)
      | (Inr done, st') \<Rightarrow>
          if done then Some (None, st', seconds + 3)
          else Load_poll svc projectID job st' (seconds + 3))"

text \<open>The state of the service before poll number \<open>n\<close> (from 0) of that loop.\<close>

fun poll_state :: "('o, 'st) bq \<Rightarrow> string \<Rightarrow> string \<Rightarrow> 'st \<Rightarrow> nat \<Rightarrow> 'st" where
  "poll_state svc pid jid st 0 = st"
| "poll_state svc pid jid st (Suc n) = poll_state svc pid jid (snd (jobDone svc pid jid st)) n"

text \<open>What poll number \<open>n\<close> sees.\<close>

definition poll_result ::
  "('o, 'st) bq \<Rightarrow> string \<Rightarrow> string \<Rightarrow> 'st \<Rightarrow> nat \<Rightarrow> error + bool" where
  "poll_result svc pid jid st n = fst (jobDone svc pid jid (poll_state svc pid jid st n))"

text \<open>
  A service for running the polling loop: its state counts the status requests made so
  far; the job is RUNNING for the first two and DONE from the third on. The other calls
  are not used by the loop and fail.
\<close>

definition ex_load_svc :: "(unit, nat) bq" where
  "ex_load_svc = \<lparr>
     Jobs_Get = (\<lambda>pid jid n.
       (Inr \<lparr>Job_Status = Some \<lparr>JobStatus_Errors = [],
               JobStatus_State = (if n < 2 then ''RUNNING'' else ''DONE'')\<rparr>\<rparr>, Suc n)),
     Jobs_Query = (\<lambda>pid conf n. (Inl ''not served'', n)),
     Jobs_GetQueryResults = (\<lambda>pid jid token index n. (Inl ''not served'', n)),
     Datasets_List = (\<lambda>pid token n. (Inl ''not served'', n)),
     Datasets_Insert = (\<lambda>pid did n. (Some ''not served'', n)) \<rparr>"

text \<open>
  A service whose job never leaves the PENDING state.
\<close>

definition ex_stuck_svc :: "(unit, nat) bq" where
  "ex_stuck_svc = \<lparr>
     Jobs_Get = (\<lambda>pid jid n.
       (Inr \<lparr>Job_Status = Some \<lparr>JobStatus_Errors = [], JobStatus_State = ''PENDING''\<rparr>\<rparr>,
        Suc n)),
     Jobs_Query = (\<lambda>pid conf n. (Inl ''not served'', n)),
     Jobs_GetQueryResults = (\<lambda>pid jid token index n. (Inl ''not served'', n)),
     Datasets_List = (\<lambda>pid token n. (Inl ''not served'', n)),
     Datasets_Insert = (\<lambda>pid did n. (Some ''not served'', n)) \<rparr>"

subsection \<open>Files and the process environment\<close>

text \<open>
  The part of the operating system that the package touches: the files by path, the
  paths that cannot be opened for writing, the number of bytes the device still takes,
  and the environment variables.
  \<^item> \<^verbatim>\<open>os.Create(path)\<close> creates or truncates the file, or fails;
  \<^item> a write through the open file appends what fits and fails when not all of it fits;
  \<^item> \<^verbatim>\<open>os.Remove(path)\<close> deletes the file (the code ignores its result);
  \<^item> \<^verbatim>\<open>ioutil.ReadFile(path)\<close> fails on a missing file;
  \<^item> \<^verbatim>\<open>os.Setenv(key, value)\<close>.
\<close>

record world =
  files :: "string \<Rightarrow> string option"
  locked :: "string list"
  room :: nat
  environ :: "string \<Rightarrow> string option"

definition os_Create :: "string \<Rightarrow> world \<Rightarrow> string + world" where
  "os_Create path w =
     (if path \<in> set (locked w) then Inl (''open '' @ path @ '': permission denied'')
      else Inr (w\<lparr>files := (files w)(path \<mapsto> '''')\<rparr>))"

definition os_Write :: "string \<Rightarrow> string \<Rightarrow> world \<Rightarrow> string option \<times> world" where
  "os_Write path by w =
     (let n = min (length by) (room w);
          old = (case files w path of None \<Rightarrow> '''' | Some c \<Rightarrow> c);
          w' = w\<lparr>files := (files w)(path \<mapsto> old @ take n by), room := room w - n\<rparr>
      in (if n < length by then Some (''write '' @ path @ '': no space left on device'')
          else None, w'))"

definition os_Remove :: "string \<Rightarrow> world \<Rightarrow> world" where
  "os_Remove path w = w\<lparr>files := (files w)(path := None)\<rparr>"

definition ioutil_ReadFile :: "string \<Rightarrow> world \<Rightarrow> string + string" where
  "ioutil_ReadFile path w =
     (case files w path of
        None \<Rightarrow> Inl (''open '' @ path @ '': no such file or directory'')
      | Some by \<Rightarrow> Inr by)"

definition os_Setenv :: "string \<Rightarrow> string \<Rightarrow> world \<Rightarrow> world" where
  "os_Setenv key v w = w\<lparr>environ := (environ w)(key \<mapsto> v)\<rparr>"

subsection \<open>Writing the records: \<^verbatim>\<open>dumpJSON\<close> and \<^verbatim>\<open>dumpCSV\<close>\<close>

text \<open>
  \<^verbatim>\<open>
  func dumpJSON(data []map[string]interface{}, output string, pretty bool) error {
      f, err := os.Create(output)
      if err != nil { return err }
      if pretty {
          by, err := json.MarshalIndent(data, "", "\t")
          if err != nil { return err }
          if _, err = f.Write(by); err != nil { os.Remove(output); return err }
      } else {
          enc := json.NewEncoder(f)
          if err = enc.Encode(data); err != nil { os.Remove(output); return err }
      }
      return nil
  }
  \<close>
  \<^verbatim>\<open>Encode\<close> marshals the data and then writes the bytes to \<^verbatim>\<open>f\<close>; it fails when
  either step does.
\<close>

definition dumpJSON ::
  "('f, 'o) lib \<Rightarrow> ('f, 'o) gomap list \<Rightarrow> string \<Rightarrow> bool \<Rightarrow> world \<Rightarrow> error option \<times> world" where
  "dumpJSON lib data output pretty w =
     (case os_Create output w of
        Inl err \<Rightarrow> (Some (Error err), w)
      | Inr w1 \<Rightarrow>
          if pretty then
            (case MarshalIndent lib data '''' [CHR 0x09] of
               Inl err \<Rightarrow> (Some (Error err), w1)
             | Inr by \<Rightarrow>
                 (case os_Write output by w1 of
                    (Some err, w2) \<Rightarrow> (Some (Error err), os_Remove output w2)
                  | (None, w2) \<Rightarrow> (None, w2)))
          else
            (case Encode lib data of
               Inl err \<Rightarrow> (Some (Error err), os_Remove output w1)
             | Inr by \<Rightarrow>
                 (case os_Write output by w1 of
                    (Some err, w2) \<Rightarrow> (Some (Error err), os_Remove output w2)
                  | (None, w2) \<Rightarrow> (None, w2))))"

text \<open>
  The lines that \<^verbatim>\<open>dumpCSV\<close> builds from a non-empty list of records, whose first
  record is \<open>first\<close>:
  \<^verbatim>\<open>
  var fields sort.StringSlice
  for key, _ := range data[0] { fields = append(fields, key) }
  fields.Sort()
  var lines = make([][]string, len(data), len(data)+1)
  for num, rows := range data {
      lines[num] = make([]string, len(fields))
      for i = 0; i < len(fields); i++ {
          if val, ok = rows[fields[i]]; ok { lines[num][i] = fmt.Sprintf("%v", val) }
          else { lines[num][i] = "" }
      }
  }
  if printFields { lines = append([][]string{fields}, lines...) }
  \<close>
\<close>

definition dumpCSV_fields :: "('f, 'o) gomap \<Rightarrow> string list" where
  "dumpCSV_fields first = sort (map fst first)"

definition dumpCSV_line :: "('f, 'o) lib \<Rightarrow> string list \<Rightarrow> ('f, 'o) gomap \<Rightarrow> string list" where
  "dumpCSV_line lib flds rows =
     map (\<lambda>f. case map_of rows f of Some v \<Rightarrow> Sprintf_v lib v | None \<Rightarrow> '''') flds"

definition dumpCSV_lines ::
  "('f, 'o) lib \<Rightarrow> ('f, 'o) gomap \<Rightarrow> ('f, 'o) gomap list \<Rightarrow> bool \<Rightarrow> string list list" where
  "dumpCSV_lines lib first data printFields =
     (let flds = dumpCSV_fields first;
          lines = map (dumpCSV_line lib flds) data
      in if printFields then flds # lines else lines)"

text \<open>
  The separator of the writer: \<^verbatim>\<open>csv.NewWriter\<close> sets \<^verbatim>\<open>Comma\<close> to \<^verbatim>\<open>','\<close>, then
  \<^verbatim>\<open>
  if delim != "" {
      if delim == "tab" { w.Comma = rune('\t') } else { w.Comma = rune(delim[0]) }
  }
  \<close>
  A rune is its code point; \<^verbatim>\<open>rune(delim[0])\<close> is the value of the first byte.
\<close>

definition dumpCSV_Comma :: "string \<Rightarrow> nat" where
  "dumpCSV_Comma delim =
     (if delim \<noteq> '''' then
        (if delim = ''tab'' then of_char (CHR 0x09) else of_char (hd delim))
      else of_char CHR '','')"

text \<open>
  \<^verbatim>\<open>dumpCSV(data, output, delim, printFields)\<close>: \<^verbatim>\<open>data[0]\<close> panics on an empty list,
  before the file is created. The result of \<^verbatim>\<open>w.WriteAll(lines)\<close> is dropped and the
  function returns \<^verbatim>\<open>nil\<close>.
\<close>

definition dumpCSV ::
  "('f, 'o) lib \<Rightarrow> ('f, 'o) gomap list \<Rightarrow> string \<Rightarrow> string \<Rightarrow> bool \<Rightarrow> world
     \<Rightarrow> error option \<times> world" where
  "dumpCSV lib data output delim printFields w =
     (case data of
        [] \<Rightarrow> (Some (Panic ''index out of range''), w)
      | first # _ \<Rightarrow>
          (let lines = dumpCSV_lines lib first data printFields in
           case os_Create output w of
             Inl err \<Rightarrow> (Some (Error err), w)
           | Inr w1 \<Rightarrow>
               (None, snd (os_Write output (WriteAll lib (dumpCSV_Comma delim) lines) w1))))"

subsection \<open>\<^verbatim>\<open>Dump\<close>\<close>

text \<open>
  \<^verbatim>\<open>strings.ToLower\<close> on the ASCII letters. Only the comparison of its result with
  \<^verbatim>\<open>"json"\<close> and \<^verbatim>\<open>"csv"\<close> is used, and no other character lowers to a letter of these.
\<close>

definition ToLower :: "string \<Rightarrow> string" where
  "ToLower s = map (\<lambda>c. if CHR ''A'' \<le> c \<and> c \<le> CHR ''Z'' then char_of (of_char c + (32::nat)) else c) s"

text \<open>
  \<^verbatim>\<open>
  func oauthClient(jwtFile string) (*http.Client, error) {
      by, err := ioutil.ReadFile(jwtFile)
      if err != nil { return nil, err }
      conf, err := google.JWTConfigFromJSON(by, bigquery.BigqueryScope)
      if err != nil { return nil, err }
      return conf.Client(oauth2.NoContext), nil
  }
  \<close>
  The client it returns is never \<^verbatim>\<open>nil\<close>, so \<^verbatim>\<open>bigquery.New(client)\<close> does not fail;
  the service the client talks to is the parameter \<open>svc\<close> of the callers.
\<close>

definition oauthClient :: "('f, 'o) lib \<Rightarrow> string \<Rightarrow> world \<Rightarrow> error option" where
  "oauthClient lib jwtFile w =
     (case ioutil_ReadFile jwtFile w of
        Inl err \<Rightarrow> Some (Error err)
      | Inr by \<Rightarrow>
          (case JWTConfigFromJSON lib by of
             Some err \<Rightarrow> Some (Error err)
           | None \<Rightarrow> None))"

text \<open>
  The paging loop of \<^verbatim>\<open>Dump\<close>:
  \<^verbatim>\<open>
  for int(total) != retrieved {
      req := bq.Jobs.GetQueryResults(projectID, jobID)
      req.PageToken(token)
      req.StartIndex(uint64(retrieved))
      res, err := req.Do()
      if err != nil { return fmt.Errorf("Error getting query results - %s", err) }
      if len(res.Errors) != 0 { return fmt.Errorf("%d errors returned", len(res.Errors)) }
      token = res.PageToken
      rows = append(rows, res.Rows...)
      retrieved += len(res.Rows)
  }
  \<close>
  \<open>totalRows\<close> is \<^verbatim>\<open>int(total)\<close>, the signed reading of the 64-bit count. \<open>retrieved\<close> is
  the length of a slice, so it does not overflow. The loop need not end: it is a
  partial function.
\<close>

partial_function (option) Dump_pages ::
  "('o, 'st) bq \<Rightarrow> string \<Rightarrow> string \<Rightarrow> int \<Rightarrow> string \<Rightarrow> 'o iface list list \<Rightarrow> nat \<Rightarrow> 'st
     \<Rightarrow> ((error + 'o iface list list) \<times> 'st) option" where
  "Dump_pages svc projectID jobID totalRows token rows retrieved st =
     (if totalRows \<noteq> int retrieved then
        (case Jobs_GetQueryResults svc projectID jobID token (of_nat retrieved) st of
           (Inl err, st') \<Rightarrow> Some (Inl (Error (''Error getting query results - '' @ err)), st')
         | (Inr res, st') \<Rightarrow>
             if length (GQR_Errors res) \<noteq> 0
             then Some (Inl (Error (fmt_d (length (GQR_Errors res)) @ '' errors returned'')), st')
             else Dump_pages svc projectID jobID totalRows (GQR_PageToken res)
                    (rows @ GQR_Rows res) (retrieved + length (GQR_Rows res)) st')
      else Some (Inr rows, st))"

text \<open>
  Collecting all rows, from the first response \<open>res\<close> on:
  \<^verbatim>\<open>
  var total = res.TotalRows
  var retrieved = len(res.Rows)
  var rows = res.Rows
  ...
  if retrieved != int(total) {
      var jobID = res.JobReference.JobId
      var token = res.PageToken
      ... the loop ...
  }
  \<close>
\<close>

definition Dump_rows ::
  "('o, 'st) bq \<Rightarrow> string \<Rightarrow> 'o QueryResponse \<Rightarrow> 'st
     \<Rightarrow> ((error + 'o iface list list) \<times> 'st) option" where
  "Dump_rows svc projectID res st =
     (if int (length (QR_Rows res)) \<noteq> sint (QR_TotalRows res) then
        (case QR_JobReference res of
           None \<Rightarrow> Some (Inl (Panic ''nil pointer dereference''), st)
         | Some ref \<Rightarrow>
             Dump_pages svc projectID (JobId ref) (sint (QR_TotalRows res)) (QR_PageToken res)
               (QR_Rows res) (length (QR_Rows res)) st)
      else Some (Inr (QR_Rows res), st))"

text \<open>
  The request of \<^verbatim>\<open>Dump\<close>:
  \<^verbatim>\<open>
  conf := &bigquery.QueryRequest{Kind: "bigquery#queryRequest", Query: query}
  if timeout != 0 { conf.TimeoutMs = timeout }
  if nocache { conf.UseQueryCache = new(bool) }
  \<close>
\<close>

definition Dump_conf :: "string \<Rightarrow> 64 word \<Rightarrow> bool \<Rightarrow> QueryRequest" where
  "Dump_conf query timeout nocache =
     \<lparr>Kind = ''bigquery#queryRequest'', Query = query,
      TimeoutMs = (if timeout \<noteq> 0 then timeout else 0),
      UseQueryCache = (if nocache then Some False else None)\<rparr>"

text \<open>
  \<^verbatim>\<open>Dump\<close> up to the records it hands to the writer: the parameter checks, the proxy,
  the client, the query, the paging and \<^verbatim>\<open>toRows\<close>. The result carries the normalised
  file format and delimiter.
\<close>

definition Dump_records ::
  "('f, 'o) lib \<Rightarrow> ('o, 'st) bq \<Rightarrow> string \<Rightarrow> string \<Rightarrow> string \<Rightarrow> string \<Rightarrow> string \<Rightarrow> string
     \<Rightarrow> string \<Rightarrow> 64 word \<Rightarrow> bool \<Rightarrow> world \<Rightarrow> 'st
     \<Rightarrow> ((error + (string \<times> string \<times> ('f, 'o) gomap list)) \<times> world \<times> 'st) option" where
  "Dump_records lib svc projectID jwtFile output fileFormat delimiter query proxy timeout
      nocache w st =
     (if projectID = '''' \<or> jwtFile = '''' \<or> output = '''' \<or> fileFormat = '''' \<or> query = ''''
      then Some (Inl (Error ''no paramters''), w, st)
      else if ToLower fileFormat \<noteq> ''json'' \<and> ToLower fileFormat \<noteq> ''csv''
      then Some (Inl (Error ''Unsupported output file format''), w, st)
      else
        let fileFormat' = ToLower fileFormat;
            delimiter' = (if fileFormat' = ''csv'' \<and> delimiter = '''' then '','' else delimiter);
            w1 = (if proxy \<noteq> '''' then os_Setenv ''HTTP_PROXY'' proxy w else w)
        in
        (case oauthClient lib jwtFile w1 of
           Some err \<Rightarrow> Some (Inl err, w1, st)
         | None \<Rightarrow>
             (case Jobs_Query svc projectID (Dump_conf query timeout nocache) st of
                (Inl err, st1) \<Rightarrow> Some (Inl (Error (''Error sending request - '' @ err)), w1, st1)
              | (Inr res, st1) \<Rightarrow>
                  if length (QR_Errors res) \<noteq> 0
                  then Some (Inl (Error (fmt_d (length (QR_Errors res)) @ '' errors returned'')),
                             w1, st1)
                  else
                    (case QR_Schema res of
                       None \<Rightarrow>
                         Some (Inl (Error ''Error getting reply, no schema data returned''),
                               w1, st1)
                     | Some schema \<Rightarrow>
                         (case Dump_rows svc projectID res st1 of
                            None \<Rightarrow> None
                          | Some (Inl err, st2) \<Rightarrow> Some (Inl err, w1, st2)
                          | Some (Inr rows, st2) \<Rightarrow>
                              (case toRows lib (Schema_Fields schema) rows of
                                 Inl err \<Rightarrow> Some (Inl err, w1, st2)
                               | Inr result \<Rightarrow>
                                   Some (Inr (fileFormat', delimiter', result), w1, st2)))))))"

text \<open>
  \<^verbatim>\<open>Dump(projectID, jwtFile, output, fileFormat, delimiter, query, proxy, pretty,
  printFields, timeout, nocache)\<close>: the records are written by \<^verbatim>\<open>dumpJSON\<close> or
  \<^verbatim>\<open>dumpCSV\<close>.
\<close>

definition Dump ::
  "('f, 'o) lib \<Rightarrow> ('o, 'st) bq \<Rightarrow> string \<Rightarrow> string \<Rightarrow> string \<Rightarrow> string \<Rightarrow> string \<Rightarrow> string
     \<Rightarrow> string \<Rightarrow> bool \<Rightarrow> bool \<Rightarrow> 64 word \<Rightarrow> bool \<Rightarrow> world \<Rightarrow> 'st
     \<Rightarrow> (error option \<times> world \<times> 'st) option" where
  "Dump lib svc projectID jwtFile output fileFormat delimiter query proxy pretty printFields
      timeout nocache w st =
     (case Dump_records lib svc projectID jwtFile output fileFormat delimiter query proxy
             timeout nocache w st of
        None \<Rightarrow> None
      | Some (Inl err, w1, st1) \<Rightarrow> Some (Some err, w1, st1)
      | Some (Inr (fileFormat', delimiter', result), w1, st1) \<Rightarrow>
          (case (if fileFormat' = ''json'' then dumpJSON lib result output pretty w1
                 else dumpCSV lib result output delimiter' printFields w1) of
             (err, w2) \<Rightarrow> Some (err, w2, st1)))"


text \<open>
  A query service for running \<^verbatim>\<open>Dump\<close>: it serves the rows of \<open>table\<close>, at most \<open>page\<close>
  rows per response, from the requested start index on. Its state counts the requests.
\<close>

definition ex_query_svc ::
  "unit iface list list \<Rightarrow> TableFieldSchema list \<Rightarrow> nat \<Rightarrow> (unit, nat) bq" where
  "ex_query_svc table flds page = \<lparr>
     Jobs_Get = (\<lambda>pid jid n. (Inl ''not served'', n)),
     Jobs_Query = (\<lambda>pid conf n.
       (Inr \<lparr>QR_Errors = [], QR_JobReference = Some \<lparr>JobId = ''job_1'', ProjectId = pid\<rparr>,
              QR_PageToken = ''next'', QR_Rows = take page table,
              QR_Schema = Some \<lparr>Schema_Fields = flds\<rparr>,
              QR_TotalRows = of_nat (length table)\<rparr>, Suc n)),
     Jobs_GetQueryResults = (\<lambda>pid jid token index n.
       (Inr \<lparr>GQR_Errors = [], GQR_PageToken = ''next'',
              GQR_Rows = take page (drop (unat index) table)\<rparr>, Suc n)),
     Datasets_List = (\<lambda>pid token n. (Inl ''not served'', n)),
     Datasets_Insert = (\<lambda>pid did n. (Some ''not served'', n)) \<rparr>"

definition ex_schema :: "TableFieldSchema list" where
  "ex_schema = [TableFieldSchema ''n'' ''INTEGER'' [], TableFieldSchema ''s'' ''STRING'' []]"


text \<open>A world with a credentials file, one path that cannot be written, and room.\<close>

definition ex_world :: world where
  "ex_world = \<lparr>files = [''key.json'' \<mapsto> ''{}''], locked = [''/locked''], room = 1000,
                environ = Map.empty\<rparr>"

subsection \<open>Ensuring the dataset: \<^verbatim>\<open>datasetCreateIfNotExists\<close>\<close>

text \<open>
  The scan of one page of the listing:
  \<^verbatim>\<open>
  for _, dataset := range res.Datasets {
      if dataset.DatasetReference.DatasetId == datasetID { return nil }
  }
  \<close>
  \<^const>\<open>True\<close> when the dataset is found; a missing reference is a nil dereference.
\<close>

fun scan_datasets :: "DatasetListDatasets list \<Rightarrow> string \<Rightarrow> error + bool" where
  "scan_datasets [] datasetID = Inr False"
| "scan_datasets (dataset # datasets) datasetID =
     (case Datasets_DatasetReference dataset of
        None \<Rightarrow> Inl (Panic ''nil pointer dereference'')
      | Some ref \<Rightarrow>
          if DatasetId ref = datasetID then Inr True else scan_datasets datasets datasetID)"

text \<open>
  The loop over the further pages:
  \<^verbatim>\<open>
  var token = res.NextPageToken
  for token != "" {
      checkReq.PageToken(token)
      if res, err = checkReq.Do(); err != nil { return err }
      for _, dataset := range res.Datasets { ... return nil ... }
      token = res.NextPageToken
  }
  \<close>
  \<^const>\<open>True\<close> when the dataset is found on a page, \<^const>\<open>False\<close> when the tokens run
  out. The service decides whether they do, so the loop is a partial function.
\<close>

partial_function (option) datasets_pages ::
  "('o, 'st) bq \<Rightarrow> string \<Rightarrow> string \<Rightarrow> string \<Rightarrow> 'st \<Rightarrow> ((error + bool) \<times> 'st) option" where
  "datasets_pages svc projectID datasetID token st =
     (if token \<noteq> '''' then
        (case Datasets_List svc projectID (Some token) st of
           (Inl err, st') \<Rightarrow> Some (Inl (Error err), st')
         | (Inr res, st') \<Rightarrow>
             (case scan_datasets (Datasets res) datasetID of
                Inl e \<Rightarrow> Some (Inl e, st')
              | Inr found \<Rightarrow>
                  if found then Some (Inr True, st')
                  else datasets_pages svc projectID datasetID (NextPageToken res) st'))
      else Some (Inr False, st))"

text \<open>
  \<^verbatim>\<open>
  func datasetCreateIfNotExists(bq *bigquery.Service, projectID, datasetID string) error {
      checkReq := bq.Datasets.List(projectID)
      res, err := checkReq.Do()
      if err != nil { return fmt.Errorf("Error checking datasets - %s", err) }
      for _, dataset := range res.Datasets { ... return nil ... }
      ... the loop over the further pages ...
      createReq := bq.Datasets.Insert(projectID, &bigquery.Dataset{ ... datasetID ... })
      if _, err := createReq.Do(); err != nil { return err }
      return nil
  }
  \<close>
  The result is the error, if any, the state of the service after the call, and the
  number of creation calls (\<^verbatim>\<open>Insert\<close>) made.
\<close>

definition datasetCreateIfNotExists ::
  "('o, 'st) bq \<Rightarrow> string \<Rightarrow> string \<Rightarrow> 'st \<Rightarrow> (error option \<times> 'st \<times> nat) option" where
  "datasetCreateIfNotExists svc projectID datasetID st =
     (case Datasets_List svc projectID None st of
        (Inl err, st1) \<Rightarrow> Some (Some (Error (''Error checking datasets - '' @ err)), st1, 0)
      | (Inr res, st1) \<Rightarrow>
          (case scan_datasets (Datasets res) datasetID of
             Inl e \<Rightarrow> Some (Some e, st1, 0)
           | Inr found \<Rightarrow>
               if found then Some (None, st1, 0)
               else
                 (case datasets_pages svc projectID datasetID (NextPageToken res) st1 of
                    None \<Rightarrow> None
                  | Some (Inl e, st2) \<Rightarrow> Some (Some e, st2, 0)
                  | Some (Inr found', st2) \<Rightarrow>
                      if found' then Some (None, st2, 0)
                      else
                        (case Datasets_Insert svc projectID datasetID st2 of
                           (Some err, st3) \<Rightarrow> Some (Some (Error err), st3, 1)
                         | (None, st3) \<Rightarrow> Some (None, st3, 1)))))"

text \<open>
  Two consecutive calls with the same dataset id, the second on the state the first
  leaves: the two results and the number of creation calls made by both.
\<close>

definition ensure_twice ::
  "('o, 'st) bq \<Rightarrow> string \<Rightarrow> string \<Rightarrow> 'st \<Rightarrow> (error option \<times> error option \<times> 'st \<times> nat) option" where
  "ensure_twice svc projectID datasetID st =
     (case datasetCreateIfNotExists svc projectID datasetID st of
        None \<Rightarrow> None
      | Some (e1, st1, n1) \<Rightarrow>
          (case datasetCreateIfNotExists svc projectID datasetID st1 of
             None \<Rightarrow> None
           | Some (e2, st2, n2) \<Rightarrow> Some (e1, e2, st2, n1 + n2)))"

text \<open>
  What the service's listing says, page by page from the request with page token
  \<open>token\<close> in state \<open>st\<close>: \<open>listed\<close> when a page that is served holds the dataset id
  (no earlier page failing), \<open>unlisted\<close> when every page up to the last one, the one
  with no next token, is served and none holds it. \<open>st'\<close> is the state after the
  requests made.
\<close>

inductive listed ::
  "('o, 'st) bq \<Rightarrow> string \<Rightarrow> string \<Rightarrow> string option \<Rightarrow> 'st \<Rightarrow> 'st \<Rightarrow> bool"
  for svc :: "('o, 'st) bq" and projectID datasetID :: string where
  here: "Datasets_List svc projectID token st = (Inr res, st') \<Longrightarrow>
         scan_datasets (Datasets res) datasetID = Inr True \<Longrightarrow>
         listed svc projectID datasetID token st st'"
| later: "Datasets_List svc projectID token st = (Inr res, st1) \<Longrightarrow>
         scan_datasets (Datasets res) datasetID = Inr False \<Longrightarrow>
         NextPageToken res \<noteq> '''' \<Longrightarrow>
         listed svc projectID datasetID (Some (NextPageToken res)) st1 st' \<Longrightarrow>
         listed svc projectID datasetID token st st'"

inductive unlisted ::
  "('o, 'st) bq \<Rightarrow> string \<Rightarrow> string \<Rightarrow> string option \<Rightarrow> 'st \<Rightarrow> 'st \<Rightarrow> bool"
  for svc :: "('o, 'st) bq" and projectID datasetID :: string where
  last: "Datasets_List svc projectID token st = (Inr res, st') \<Longrightarrow>
         scan_datasets (Datasets res) datasetID = Inr False \<Longrightarrow>
         NextPageToken res = '''' \<Longrightarrow>
         unlisted svc projectID datasetID token st st'"
| more: "Datasets_List svc projectID token st = (Inr res, st1) \<Longrightarrow>
         scan_datasets (Datasets res) datasetID = Inr False \<Longrightarrow>
         NextPageToken res \<noteq> '''' \<Longrightarrow>
         unlisted svc projectID datasetID (Some (NextPageToken res)) st1 st' \<Longrightarrow>
         unlisted svc projectID datasetID token st st'"

text \<open>
  Both run: given the service, the ids, the page token and the state, they enumerate
  the states after the requests.
\<close>

code_pred (modes: i \<Rightarrow> i \<Rightarrow> i \<Rightarrow> i \<Rightarrow> i \<Rightarrow> o \<Rightarrow> bool as listed_after) listed .

code_pred (modes: i \<Rightarrow> i \<Rightarrow> i \<Rightarrow> i \<Rightarrow> i \<Rightarrow> o \<Rightarrow> bool as unlisted_after) unlisted .

text \<open>
  A dataset store for running the function: its state is the list of dataset ids. It
  lists them two per page; the page token of the page at offset \<open>k\<close> is \<open>k\<close> marks, and
  the last page has no next token. \<^verbatim>\<open>Insert\<close> appends the id, unless the store is
  read-only and refuses.
\<close>

definition ex_page :: "string list \<Rightarrow> nat \<Rightarrow> DatasetList" where
  "ex_page ids k =
     \<lparr>Datasets = map (\<lambda>i. \<lparr>Datasets_DatasetReference = Some \<lparr>DatasetId = i\<rparr>\<rparr>)
                    (take 2 (drop k ids)),
      NextPageToken = (if k + 2 < length ids then replicate (k + 2) CHR ''+'' else '''')\<rparr>"

definition ex_store :: "bool \<Rightarrow> (unit, string list) bq" where
  "ex_store readonly = \<lparr>
     Jobs_Get = (\<lambda>pid jid ids. (Inl ''not served'', ids)),
     Jobs_Query = (\<lambda>pid conf ids. (Inl ''not served'', ids)),
     Jobs_GetQueryResults = (\<lambda>pid jid token index ids. (Inl ''not served'', ids)),
     Datasets_List = (\<lambda>pid token ids.
       (Inr (ex_page ids (case token of None \<Rightarrow> 0 | Some t \<Rightarrow> length t)), ids)),
     Datasets_Insert = (\<lambda>pid did ids.
       if readonly then (Some ''access denied'', ids) else (None, ids @ [did])) \<rparr>"

section \<open>Properties\<close>

subsection \<open>Schema flattening\<close>

lemma walkFields_primitive:
  "ty \<noteq> ''RECORD'' \<Longrightarrow>
   walkFields prefix (TableFieldSchema nm ty fs) =
     (if prefix = '''' then (nm, ty) else (prefix @ ''.'' @ nm, ty))"
  by simp

lemma walkFields_record_first:
  "walkFields prefix (TableFieldSchema nm ''RECORD'' (field # rest)) =
   walkFields (Name field) field"
  by simp

lemma walkFields_record_empty:
  "walkFields prefix (TableFieldSchema nm ''RECORD'' []) = ('''', '''')"
  by simp

lemma walkFields_record_primitive_child:
  assumes "cty \<noteq> ''RECORD''" and "cnm \<noteq> ''''"
  shows "walkFields prefix
           (TableFieldSchema nm ''RECORD'' (TableFieldSchema cnm cty cfs # rest)) =
         (cnm @ ''.'' @ cnm, cty)"
  using assms by simp

text \<open>
  Claim C1. A top-level RECORD field is said to be flattened to the name
  \<open>parent.child\<close>, the RECORD's own name joined by a dot to the name of its first nested
  field. The code hands the nested field's name down as the prefix of that same nested
  field, so the name it computes is \<open>child.child\<close>: for the RECORD \<open>a\<close> with the nested
  fields \<open>b\<close> (STRING) and \<open>c\<close> (INTEGER) the flattened name is \<open>b.b\<close>, not \<open>a.b\<close>.
  The type is that of the first nested field and \<open>c\<close> is ignored.
\<close>

theorem walkFields_record_name_is_child_child:
  "walkFields ''''
     (TableFieldSchema ''a'' ''RECORD''
        [TableFieldSchema ''b'' ''STRING'' [], TableFieldSchema ''c'' ''INTEGER'' []])
   = (''b.b'', ''STRING'')
   \<and> walkFields ''''
     (TableFieldSchema ''a'' ''RECORD''
        [TableFieldSchema ''b'' ''STRING'' [], TableFieldSchema ''c'' ''INTEGER'' []])
   \<noteq> (''a.b'', ''STRING'')"
  by simp

subsection \<open>Cell decoding\<close>

lemma toRows_cell_out_of_range:
  "length names \<le> i \<Longrightarrow> toRows_cell lib names i V result = Inl (Panic ''index out of range'')"
  by (simp add: toRows_cell_def)

lemma toRows_cell_not_string:
  "i < length names \<Longrightarrow>
   ftype (names ! i) \<in> {''INTEGER'', ''TIMESTAMP'', ''FLOAT'', ''BOOLEAN''} \<Longrightarrow>
   toRows_cell lib names i (IOther x) result =
     Inl (Panic ''interface conversion: interface {} is not string'')"
  by (auto simp: toRows_cell_def)

lemma toRows_cells_error:
  "toRows_cell lib names i cell result = Inl e \<Longrightarrow>
   toRows_cells lib names i (cell # cells) result = Inl e"
  by simp



lemma toRows_one_cell:
  "toRows lib [field] [[V]] =
     (case toRows_cell lib [\<lparr>name = fst (walkFields '''' field),
                             ftype = snd (walkFields '''' field)\<rparr>] 0 V [] of
        Inl e \<Rightarrow> Inl e
      | Inr result \<Rightarrow> Inr [result])"
  by (simp add: toRows_def split: prod.splits sum.splits)



subsection \<open>Polling a load job\<close>

lemma Load_poll_continue:
  "fst (jobDone svc pid jid st) = Inr False \<Longrightarrow>
   Load_poll svc pid jid st s = Load_poll svc pid jid (snd (jobDone svc pid jid st)) (s + 3)"
  by (subst Load_poll.simps) (cases "jobDone svc pid jid st", simp)

lemma Load_poll_stop:
  "fst (jobDone svc pid jid st) \<noteq> Inr False \<Longrightarrow>
   Load_poll svc pid jid st s =
     Some (case fst (jobDone svc pid jid st) of Inl e \<Rightarrow> Some e | Inr d \<Rightarrow> None,
           snd (jobDone svc pid jid st), s + 3)"
  by (subst Load_poll.simps) (auto split: prod.splits sum.splits)

lemma Load_poll_steps:
  "(\<And>i. i < k \<Longrightarrow> poll_result svc pid jid st i = Inr False) \<Longrightarrow>
   Load_poll svc pid jid st s =
     Load_poll svc pid jid (poll_state svc pid jid st k) (s + 3 * k)"
proof (induction k arbitrary: st s)
  case 0
  then show ?case by simp
next
  case (Suc k)
  from Suc.prems [of 0] have first: "fst (jobDone svc pid jid st) = Inr False"
    by (simp add: poll_result_def)
  have rest: "poll_result svc pid jid (snd (jobDone svc pid jid st)) i = Inr False"
    if "i < k" for i
    using Suc.prems [of "Suc i"] that by (simp add: poll_result_def)
  show ?case
    using Suc.IH [OF rest, of "s + 3"] by (simp add: Load_poll_continue [OF first] add.assoc)
qed

lemma poll_state_Suc:
  "poll_state svc pid jid st (Suc n) = snd (jobDone svc pid jid (poll_state svc pid jid st n))"
  by (induction n arbitrary: st) simp_all

lemma Load_poll_returns_stops:
  assumes "Load_poll svc pid jid st s = Some y"
  shows "\<exists>i. poll_result svc pid jid st i \<noteq> Inr False"
proof (rule Load_poll.raw_induct
    [where P = "\<lambda>svc pid jid st s y. \<exists>i. poll_result svc pid jid st i \<noteq> Inr False",
     OF _ assms], goal_cases)
  case (1 poll svc pid jid st s y)
  note IH = 1(1) and body = 1(2)
  show ?case
  proof (cases "fst (jobDone svc pid jid st) = Inr False")
    case False
    then have "poll_result svc pid jid st 0 \<noteq> Inr False"
      by (simp add: poll_result_def)
    then show ?thesis by blast
  next
    case True
    with body have "poll svc pid jid (snd (jobDone svc pid jid st)) (s + 3) = Some y"
      by (cases "jobDone svc pid jid st") simp
    from IH [OF this] obtain i
      where "poll_result svc pid jid (snd (jobDone svc pid jid st)) i \<noteq> Inr False" ..
    then have "poll_result svc pid jid st (Suc i) \<noteq> Inr False"
      by (simp add: poll_result_def)
    then show ?thesis by blast
  qed
qed

lemma jobDone_cases:
  assumes "Jobs_Get svc pid jid st = (Inr res, st')" and "Job_Status res = Some status"
  shows "jobDone svc pid jid st =
    (if JobStatus_Errors status \<noteq> []
     then Inl (Error (fmt_d (length (JobStatus_Errors status)) @ '' errors returned''))
     else if JobStatus_State status \<in> {''PENDING'', ''RUNNING''} then Inr False
     else if JobStatus_State status = ''DONE'' then Inr True
     else Inl (Error (''Unknown job status returned - '' @ JobStatus_State status
                       @ '' ('' @ pid @ '','' @ jid @ '')'')), st')"
  using assms by (simp add: jobDone_def)

text \<open>
  Claim C4. One status request of \<^verbatim>\<open>Load\<close>'s polling: when the response carries a
  non-empty error list the step is an error; otherwise PENDING and RUNNING mean not done
  and no error, DONE means done, and any other state is an error. The loop asks once per
  3-second tick: if the first \<open>k\<close> polls see PENDING or RUNNING and the next one does not,
  the loop returns what that poll returned, after \<open>3 * (k + 1)\<close> seconds, for every \<open>k\<close>
  (there is no timeout); and if every poll sees PENDING or RUNNING, it never returns.
\<close>

theorem Load_poll_behaviour:
  "(\<forall>res st' status.
      Jobs_Get svc pid jid st = (Inr res, st') \<and> Job_Status res = Some status \<longrightarrow>
      (JobStatus_Errors status \<noteq> [] \<longrightarrow>
         jobDone svc pid jid st =
           (Inl (Error (fmt_d (length (JobStatus_Errors status)) @ '' errors returned'')), st'))
    \<and> (JobStatus_Errors status = [] \<longrightarrow>
        (JobStatus_State status \<in> {''PENDING'', ''RUNNING''} \<longrightarrow>
           jobDone svc pid jid st = (Inr False, st'))
      \<and> (JobStatus_State status = ''DONE'' \<longrightarrow> jobDone svc pid jid st = (Inr True, st'))
      \<and> (JobStatus_State status \<notin> {''PENDING'', ''RUNNING'', ''DONE''} \<longrightarrow>
           jobDone svc pid jid st =
             (Inl (Error (''Unknown job status returned - '' @ JobStatus_State status
                           @ '' ('' @ pid @ '','' @ jid @ '')'')), st'))))
   \<and> (\<forall>k. (\<forall>i<k. poll_result svc pid jid st i = Inr False)
          \<and> poll_result svc pid jid st k \<noteq> Inr False \<longrightarrow>
        Load_poll svc pid jid st 0 =
          Some (case poll_result svc pid jid st k of Inl e \<Rightarrow> Some e | Inr d \<Rightarrow> None,
                poll_state svc pid jid st (Suc k), 3 * (k + 1)))
   \<and> ((\<forall>i. poll_result svc pid jid st i = Inr False) \<longrightarrow> Load_poll svc pid jid st 0 = None)"
proof (intro conjI allI impI)
  fix k
  assume h: "(\<forall>i<k. poll_result svc pid jid st i = Inr False)
          \<and> poll_result svc pid jid st k \<noteq> Inr False"
  then have "Load_poll svc pid jid st 0 =
      Load_poll svc pid jid (poll_state svc pid jid st k) (0 + 3 * k)"
    by (intro Load_poll_steps) simp
  also have "\<dots> = Some (case poll_result svc pid jid st k of Inl e \<Rightarrow> Some e | Inr d \<Rightarrow> None,
                poll_state svc pid jid st (Suc k), 3 * (k + 1))"
  proof -
    from h have "fst (jobDone svc pid jid (poll_state svc pid jid st k)) \<noteq> Inr False"
      by (simp add: poll_result_def)
    from Load_poll_stop [OF this] show ?thesis
      by (simp add: poll_result_def poll_state_Suc del: poll_state.simps)
  qed
  finally show "Load_poll svc pid jid st 0 =
          Some (case poll_result svc pid jid st k of Inl e \<Rightarrow> Some e | Inr d \<Rightarrow> None,
                poll_state svc pid jid st (Suc k), 3 * (k + 1))" .
next
  assume all: "\<forall>i. poll_result svc pid jid st i = Inr False"
  show "Load_poll svc pid jid st 0 = None"
  proof (cases "Load_poll svc pid jid st 0")
    case None
    then show ?thesis .
  next
    case (Some y)
    from Load_poll_returns_stops [OF this] all show ?thesis by blast
  qed
qed (auto simp: jobDone_def)

theorem Load_poll_behaviour_witness:
  "jobDone ex_load_svc ''p'' ''j'' 0 = (Inr False, 1)
   \<and> jobDone ex_load_svc ''p'' ''j'' 2 = (Inr True, 3)
   \<and> Load_poll ex_load_svc ''p'' ''j'' 0 0 = Some (None, 3, 9)
   \<and> Load_poll ex_stuck_svc ''p'' ''j'' 0 0 = None"
proof -
  have j: "jobDone ex_load_svc ''p'' ''j'' n = (Inr (\<not> n < 2), Suc n)" for n
    by (simp add: jobDone_def ex_load_svc_def)
  have s: "poll_state ex_load_svc ''p'' ''j'' 0 n = n" for n
  proof -
    have "poll_state ex_load_svc ''p'' ''j'' m n = m + n" for m
      by (induction n arbitrary: m) (simp_all add: j)
    then show ?thesis by simp
  qed
  have r: "poll_result ex_load_svc ''p'' ''j'' 0 n = Inr (\<not> n < 2)" for n
    by (simp add: poll_result_def s j)
  have "(\<forall>i<2. poll_result ex_load_svc ''p'' ''j'' 0 i = Inr False)
      \<and> poll_result ex_load_svc ''p'' ''j'' 0 2 \<noteq> Inr False"
    by (simp add: r)
  with Load_poll_behaviour [of ex_load_svc "''p''" "''j''" 0]
  have a: "Load_poll ex_load_svc ''p'' ''j'' 0 0 =
      Some (case poll_result ex_load_svc ''p'' ''j'' 0 2 of Inl e \<Rightarrow> Some e | Inr d \<Rightarrow> None,
            poll_state ex_load_svc ''p'' ''j'' 0 (Suc 2), 3 * (2 + 1))"
    by blast
  have j': "jobDone ex_stuck_svc ''p'' ''j'' n = (Inr False, Suc n)" for n
    by (simp add: jobDone_def ex_stuck_svc_def)
  have "poll_result ex_stuck_svc ''p'' ''j'' m n = Inr False" for m n
    by (simp add: poll_result_def j')
  with Load_poll_behaviour [of ex_stuck_svc "''p''" "''j''" 0]
  have b: "Load_poll ex_stuck_svc ''p'' ''j'' 0 0 = None"
    by blast
  from a b show ?thesis by (simp add: r s j)
qed

subsection \<open>Files\<close>

lemma os_Create_file:
  "os_Create path w = Inr w1 \<Longrightarrow> files w1 path = Some '''' \<and> room w1 = room w"
  by (auto simp: os_Create_def split: if_splits)

lemma os_Create_ok: "path \<notin> set (locked w) \<Longrightarrow> \<exists>w1. os_Create path w = Inr w1"
  by (simp add: os_Create_def)

lemma os_Write_file:
  "files w1 path = Some old \<Longrightarrow>
   files (snd (os_Write path by w1)) path = Some (old @ take (room w1) by)"
  by (simp add: os_Write_def Let_def min_def)

lemma os_Write_error:
  "fst (os_Write path by w1) = None \<longleftrightarrow> length by \<le> room w1"
  by (auto simp: os_Write_def Let_def min_def)

lemma os_Remove_file: "files (os_Remove path w) path = None"
  by (simp add: os_Remove_def)

subsection \<open>Paging through the result rows\<close>








lemma Dump_records_format:
  assumes "Dump_records lib svc projectID jwtFile output fileFormat delimiter query proxy
             timeout nocache w st = Some (Inr (ff, d, result), w1, st1)"
  shows "ff = ToLower fileFormat
    \<and> d = (if ToLower fileFormat = ''csv'' \<and> delimiter = '''' then '','' else delimiter)
    \<and> (ff = ''json'' \<or> ff = ''csv'')
    \<and> locked w1 = locked w \<and> room w1 = room w"
  using assms
  by (auto simp: Dump_records_def Let_def os_Setenv_def
           split: if_splits option.splits prod.splits sum.splits)

lemma Dump_csv:
  assumes "Dump_records lib svc projectID jwtFile output fileFormat delimiter query proxy
             timeout nocache w st = Some (Inr (ff, d, result), w1, st1)"
    and "ToLower fileFormat = ''csv''"
  shows "Dump lib svc projectID jwtFile output fileFormat delimiter query proxy pretty
           printFields timeout nocache w st =
         Some (fst (dumpCSV lib result output (if delimiter = '''' then '','' else delimiter)
                      printFields w1),
               snd (dumpCSV lib result output (if delimiter = '''' then '','' else delimiter)
                      printFields w1), st1)"
  using Dump_records_format [OF assms(1)] assms
  by (simp add: Dump_def split: prod.splits)

lemma Dump_json:
  assumes "Dump_records lib svc projectID jwtFile output fileFormat delimiter query proxy
             timeout nocache w st = Some (Inr (ff, d, result), w1, st1)"
    and "ToLower fileFormat = ''json''"
  shows "Dump lib svc projectID jwtFile output fileFormat delimiter query proxy pretty
           printFields timeout nocache w st =
         Some (fst (dumpJSON lib result output pretty w1),
               snd (dumpJSON lib result output pretty w1), st1)"
  using Dump_records_format [OF assms(1)] assms
  by (simp add: Dump_def split: prod.splits)

lemma Dump_records_empty_result:
  assumes "projectID \<noteq> ''''" "jwtFile \<noteq> ''''" "output \<noteq> ''''" "query \<noteq> ''''"
    and "ToLower fileFormat = ''csv'' \<or> ToLower fileFormat = ''json''"
    and "w1 = (if proxy \<noteq> '''' then os_Setenv ''HTTP_PROXY'' proxy w else w)"
    and "oauthClient lib jwtFile w1 = None"
    and "Jobs_Query svc projectID (Dump_conf query timeout nocache) st = (Inr res, st1)"
    and "QR_Errors res = []" and "QR_Schema res = Some schema"
    and "QR_Rows res = []" and "QR_TotalRows res = 0"
  shows "Dump_records lib svc projectID jwtFile output fileFormat delimiter query proxy
           timeout nocache w st =
         Some (Inr (ToLower fileFormat,
                    if ToLower fileFormat = ''csv'' \<and> delimiter = '''' then '','' else delimiter,
                    []), w1, st1)"
proof -
  from assms(5) have "fileFormat \<noteq> ''''" by (auto simp: ToLower_def)
  with assms show ?thesis
    by (auto simp: Dump_records_def Let_def Dump_rows_def toRows_def)
qed

subsection \<open>The example query service\<close>


lemma ex_query_svc_query:
  "Jobs_Query (ex_query_svc table flds page) pid conf n =
     (Inr \<lparr>QR_Errors = [], QR_JobReference = Some \<lparr>JobId = ''job_1'', ProjectId = pid\<rparr>,
            QR_PageToken = ''next'', QR_Rows = take page table,
            QR_Schema = Some \<lparr>Schema_Fields = flds\<rparr>,
            QR_TotalRows = of_nat (length table)\<rparr>, Suc n)"
  by (simp add: ex_query_svc_def)




lemma ex_oauthClient: "oauthClient ex_lib ''key.json'' ex_world = None"
  by (simp add: oauthClient_def ioutil_ReadFile_def ex_lib_def ex_world_def)

lemma ex_ToLower: "ToLower ''CSV'' = ''csv''" "ToLower ''json'' = ''json''" "ToLower ''csv'' = ''csv''"
  by (simp_all add: ToLower_def char_of_def bit_Suc_0_iff)


lemma ex_Dump_records_one:
  "Dump_records ex_lib (ex_query_svc [[IString ''1'', IString ''a'']] ex_schema 2) ''p''
     ''key.json'' ''out.csv'' ''CSV'' delim ''SELECT 1'' '''' 0 False ex_world 0
   = Some (Inr (''csv'', if delim = '''' then '','' else delim,
        [[(''n'', VInt64 1), (''s'', VString ''a'')]]), ex_world, 1)"
proof -
  have "toRows ex_lib ex_schema [[IString ''1'', IString ''a'']]
      = Inr [[(''n'', VInt64 1), (''s'', VString ''a'')]]"
    by (simp add: toRows_def toRows_cell_def ex_lib_def ex_ParseInt_def ex_number_def
          ex_schema_def)
  then show ?thesis
    by (simp add: Dump_records_def Let_def ex_ToLower ex_oauthClient ex_query_svc_query
          Dump_rows_def)
qed

subsection \<open>The number of records\<close>



subsection \<open>The CSV writer\<close>

lemma dumpCSV_created:
  assumes "os_Create output w = Inr w1"
  shows "dumpCSV lib (first # rest) output delim printFields w =
    (None, snd (os_Write output
       (WriteAll lib (dumpCSV_Comma delim) (dumpCSV_lines lib first (first # rest) printFields))
       w1))"
  using assms by (simp add: dumpCSV_def)

lemma dumpCSV_written:
  assumes "output \<notin> set (locked w)"
  shows "\<exists>w'. dumpCSV lib (first # rest) output delim printFields w = (None, w')
    \<and> files w' output =
        Some (take (room w)
          (WriteAll lib (dumpCSV_Comma delim)
             (dumpCSV_lines lib first (first # rest) printFields)))"
proof -
  from os_Create_ok [OF assms] obtain w1 where c: "os_Create output w = Inr w1" ..
  from os_Create_file [OF c] have f: "files w1 output = Some ''''" and r: "room w1 = room w"
    by simp_all
  show ?thesis
    using os_Write_file [OF f] by (simp add: dumpCSV_created [OF c] r)
qed

lemma dumpCSV_no_cleanup:
  assumes "output \<notin> set (locked w)"
  shows "fst (dumpCSV lib (first # rest) output delim printFields w) = None
    \<and> files (snd (dumpCSV lib (first # rest) output delim printFields w)) output \<noteq> None"
  using dumpCSV_written [OF assms, of lib first rest delim printFields] by auto

text \<open>
  Claim C5. A \<^verbatim>\<open>Dump\<close> with the CSV format that gets as far as writing a non-empty
  list of records to a path it can create: with the delimiter \<open>tab\<close> the file holds
  what a \<^verbatim>\<open>csv.Writer\<close> whose \<^verbatim>\<open>Comma\<close> is the tab character writes for the lines
  (as far as the device has room), and with the empty delimiter what a writer whose
  \<^verbatim>\<open>Comma\<close> is the comma writes.
\<close>

theorem Dump_csv_delimiter:
  assumes "ToLower fileFormat = ''csv''"
    and "Dump_records lib svc projectID jwtFile output fileFormat delimiter query proxy
           timeout nocache w st = Some (Inr (ff, d, first # rest), w1, st1)"
    and "output \<notin> set (locked w1)"
  shows "(delimiter = ''tab'' \<longrightarrow>
      (\<exists>w2. Dump lib svc projectID jwtFile output fileFormat delimiter query proxy pretty
               printFields timeout nocache w st = Some (None, w2, st1)
         \<and> files w2 output =
             Some (take (room w1) (WriteAll lib (of_char (CHR 0x09))
                     (dumpCSV_lines lib first (first # rest) printFields)))))
    \<and> (delimiter = '''' \<longrightarrow>
      (\<exists>w2. Dump lib svc projectID jwtFile output fileFormat delimiter query proxy pretty
               printFields timeout nocache w st = Some (None, w2, st1)
         \<and> files w2 output =
             Some (take (room w1) (WriteAll lib (of_char CHR '','')
                     (dumpCSV_lines lib first (first # rest) printFields)))))"
proof -
  let ?delim = "if delimiter = '''' then '','' else delimiter"
  from dumpCSV_written [OF assms(3), of lib first rest ?delim printFields]
  obtain w2 where
    c: "dumpCSV lib (first # rest) output ?delim printFields w1 = (None, w2)"
    and f: "files w2 output = Some (take (room w1) (WriteAll lib (dumpCSV_Comma ?delim)
              (dumpCSV_lines lib first (first # rest) printFields)))"
    by blast
  from Dump_csv [OF assms(2) assms(1), of pretty printFields] c
  have "Dump lib svc projectID jwtFile output fileFormat delimiter query proxy pretty
          printFields timeout nocache w st = Some (None, w2, st1)"
    by simp
  with f show ?thesis
    by (auto simp: dumpCSV_Comma_def)
qed

theorem Dump_csv_delimiter_witness:
  "ToLower ''CSV'' = ''csv''
   \<and> ''out.csv'' \<notin> set (locked ex_world)
   \<and> map_option (\<lambda>(e, w2, s). (e, files w2 ''out.csv''))
       (Dump ex_lib (ex_query_svc [[IString ''1'', IString ''a'']] ex_schema 2) ''p''
          ''key.json'' ''out.csv'' ''CSV'' ''tab'' ''SELECT 1'' '''' False True 0 False ex_world 0)
     = Some (None, Some [CHR ''n'', CHR 0x09, CHR ''s'', CHR 0x0A,
                         CHR ''1'', CHR 0x09, CHR ''a'', CHR 0x0A])
   \<and> map_option (\<lambda>(e, w2, s). (e, files w2 ''out.csv''))
       (Dump ex_lib (ex_query_svc [[IString ''1'', IString ''a'']] ex_schema 2) ''p''
          ''key.json'' ''out.csv'' ''CSV'' '''' ''SELECT 1'' '''' False True 0 False ex_world 0)
     = Some (None, Some [CHR ''n'', CHR '','', CHR ''s'', CHR 0x0A,
                         CHR ''1'', CHR '','', CHR ''a'', CHR 0x0A])"
proof -
  have l: "''out.csv'' \<notin> set (locked ex_world)" by (simp add: ex_world_def)
  have w: "WriteAll ex_lib c (dumpCSV_lines ex_lib [(''n'', VInt64 1), (''s'', VString ''a'')]
              [[(''n'', VInt64 1), (''s'', VString ''a'')]] True)
       = [CHR ''n'', char_of c, CHR ''s'', CHR 0x0A, CHR ''1'', char_of c, CHR ''a'', CHR 0x0A]" for c
    by (simp add: ex_lib_def ex_WriteAll_def dumpCSV_lines_def dumpCSV_fields_def
          dumpCSV_line_def ex_Sprintf_v_def)
  from Dump_csv_delimiter [OF ex_ToLower(1) ex_Dump_records_one [of "''tab''"] l, of False True]
    Dump_csv_delimiter [OF ex_ToLower(1) ex_Dump_records_one [of "''''"] l, of False True]
  show ?thesis
    by (auto simp: w ex_ToLower l ex_world_def char_of_def bit_Suc_0_iff)
qed

text \<open>
  Claim C10. A delimiter of more than one byte that is not \<open>tab\<close>: the separator of the
  writer is the rune of the first byte, and \<^verbatim>\<open>dumpCSV\<close> does exactly what it does for
  the one-byte delimiter made of that first byte; the other bytes have no effect and
  cause no error.
\<close>

theorem dumpCSV_delimiter_first_byte:
  assumes "1 < length delim" and "delim \<noteq> ''tab''"
  shows "dumpCSV_Comma delim = of_char (hd delim)
    \<and> dumpCSV lib data output delim printFields w
        = dumpCSV lib data output [hd delim] printFields w"
proof -
  from assms have "delim \<noteq> ''''" by auto
  with assms have "dumpCSV_Comma delim = of_char (hd delim)"
    and "dumpCSV_Comma [hd delim] = of_char (hd delim)"
    by (simp_all add: dumpCSV_Comma_def)
  then show ?thesis by (simp add: dumpCSV_def split: list.splits sum.splits)
qed

theorem dumpCSV_delimiter_first_byte_witness:
  "1 < length '';|'' \<and> '';|'' \<noteq> ''tab''
   \<and> dumpCSV_Comma '';|'' = 59
   \<and> dumpCSV ex_lib [[(''s'', VString ''v''), (''n'', VInt64 1)]] ''out.csv'' '';|'' True ex_world
       = dumpCSV ex_lib [[(''s'', VString ''v''), (''n'', VInt64 1)]] ''out.csv'' '';'' True ex_world
   \<and> files (snd (dumpCSV ex_lib [[(''s'', VString ''v''), (''n'', VInt64 1)]] ''out.csv''
                   '';|'' True ex_world)) ''out.csv''
       = Some [CHR ''n'', CHR '';'', CHR ''s'', CHR 0x0A, CHR ''1'', CHR '';'', CHR ''v'', CHR 0x0A]"
  using dumpCSV_delimiter_first_byte
    [of "'';|''" ex_lib "[[(''s'', VString ''v''), (''n'', VInt64 1)]]" "''out.csv''" True ex_world]
  by (simp add: dumpCSV_def dumpCSV_Comma_def dumpCSV_lines_def dumpCSV_fields_def
        dumpCSV_line_def ex_lib_def ex_WriteAll_def ex_Sprintf_v_def ex_world_def
        os_Create_def os_Write_def Let_def char_of_def bit_Suc_0_iff)









subsection \<open>The JSON writer and empty results\<close>

lemma dumpJSON_never_panics: "fst (dumpJSON lib data output pretty w) \<noteq> Some (Panic m)"
  by (auto simp: dumpJSON_def split: sum.splits prod.splits option.splits)

lemma dumpJSON_written:
  assumes "output \<notin> set (locked w)"
    and "(if pretty then MarshalIndent lib data '''' [CHR 0x09] else Encode lib data) = Inr bs"
    and "length bs \<le> room w"
  shows "\<exists>w'. dumpJSON lib data output pretty w = (None, w') \<and> files w' output = Some bs"
proof -
  from os_Create_ok [OF assms(1)] obtain w1 where c: "os_Create output w = Inr w1" ..
  from os_Create_file [OF c] have f: "files w1 output = Some ''''" and r: "room w1 = room w"
    by simp_all
  obtain e w2 where wr: "os_Write output bs w1 = (e, w2)" by (cases "os_Write output bs w1")
  with os_Write_error [of "output" bs w1] assms(3) r have e: "e = None" by simp
  from os_Write_file [OF f, of bs] wr assms(3) r have "files w2 output = Some bs" by simp
  with c wr e assms(2) show ?thesis
    by (auto simp: dumpJSON_def split: if_splits)
qed

lemma dumpJSON_cleanup:
  assumes "os_Create output w = Inr w1"
    and "dumpJSON lib data output pretty w = (Some err, w')"
    and "pretty \<longrightarrow> (\<exists>bs. MarshalIndent lib data '''' [CHR 0x09] = Inr bs)"
  shows "files w' output = None"
  using assms
  by (auto simp: dumpJSON_def os_Remove_file split: sum.splits prod.splits option.splits if_splits)

lemma dumpJSON_marshal_failure_leaves_file:
  assumes "os_Create output w = Inr w1"
    and "MarshalIndent lib data '''' [CHR 0x09] = Inl err"
  shows "dumpJSON lib data output True w = (Some (Error err), w1) \<and> files w1 output = Some ''''"
  using assms os_Create_file [OF assms(1)] by (simp add: dumpJSON_def)

text \<open>
  Claim C9. \<^verbatim>\<open>dumpCSV\<close> reads \<^verbatim>\<open>data[0]\<close> without a check, so on an empty list it
  panics with an index out of range. A query whose response has a schema, no rows and
  a total of zero reaches it: \<^verbatim>\<open>Dump\<close> with the CSV format panics, leaving the world
  as it was before the write; with the JSON format \<^verbatim>\<open>Dump\<close> does not panic, and it
  writes the encoding of the empty list whenever the file can be created and written.
\<close>

theorem Dump_csv_empty_result:
  assumes "projectID \<noteq> ''''" "jwtFile \<noteq> ''''" "output \<noteq> ''''" "query \<noteq> ''''"
    and "w1 = (if proxy \<noteq> '''' then os_Setenv ''HTTP_PROXY'' proxy w else w)"
    and "oauthClient lib jwtFile w1 = None"
    and "Jobs_Query svc projectID (Dump_conf query timeout nocache) st = (Inr res, st1)"
    and "QR_Errors res = []" and "QR_Schema res = Some schema"
    and "QR_Rows res = []" and "QR_TotalRows res = 0"
  shows "dumpCSV lib [] output delimiter printFields w1 = (Some (Panic ''index out of range''), w1)
    \<and> (ToLower fileFormat = ''csv'' \<longrightarrow>
         Dump lib svc projectID jwtFile output fileFormat delimiter query proxy pretty
           printFields timeout nocache w st = Some (Some (Panic ''index out of range''), w1, st1))
    \<and> (ToLower fileFormat = ''json'' \<longrightarrow>
         (\<forall>m. map_option fst
                 (Dump lib svc projectID jwtFile output fileFormat delimiter query proxy pretty
                    printFields timeout nocache w st) \<noteq> Some (Some (Panic m)))
         \<and> (\<forall>bs. output \<notin> set (locked w1)
                \<and> (if pretty then MarshalIndent lib [] '''' [CHR 0x09] else Encode lib []) = Inr bs
                \<and> length bs \<le> room w1 \<longrightarrow>
              (\<exists>w2. Dump lib svc projectID jwtFile output fileFormat delimiter query proxy
                       pretty printFields timeout nocache w st = Some (None, w2, st1)
                 \<and> files w2 output = Some bs)))"
proof (intro conjI impI allI)
  show "dumpCSV lib [] output delimiter printFields w1 = (Some (Panic ''index out of range''), w1)"
    by (simp add: dumpCSV_def)
next
  assume f: "ToLower fileFormat = ''csv''"
  then have "ToLower fileFormat = ''csv'' \<or> ToLower fileFormat = ''json''" by simp
  from Dump_csv [OF Dump_records_empty_result [OF assms(1-4) this assms(5-11)] f]
  show "Dump lib svc projectID jwtFile output fileFormat delimiter query proxy pretty
           printFields timeout nocache w st = Some (Some (Panic ''index out of range''), w1, st1)"
    by (simp add: dumpCSV_def)
next
  fix m
  assume f: "ToLower fileFormat = ''json''"
  then have "ToLower fileFormat = ''csv'' \<or> ToLower fileFormat = ''json''" by simp
  from Dump_json [OF Dump_records_empty_result [OF assms(1-4) this assms(5-11)] f]
  show "map_option fst
          (Dump lib svc projectID jwtFile output fileFormat delimiter query proxy pretty
             printFields timeout nocache w st) \<noteq> Some (Some (Panic m))"
    by (simp add: dumpJSON_never_panics)
next
  fix bs
  assume f: "ToLower fileFormat = ''json''"
    and a: "output \<notin> set (locked w1)
          \<and> (if pretty then MarshalIndent lib [] '''' [CHR 0x09] else Encode lib []) = Inr bs
          \<and> length bs \<le> room w1"
  from f have "ToLower fileFormat = ''csv'' \<or> ToLower fileFormat = ''json''" by simp
  note d = Dump_json [OF Dump_records_empty_result [OF assms(1-4) this assms(5-11)] f]
  from a dumpJSON_written [of "output" w1 pretty lib "[]" bs]
  obtain w2 where "dumpJSON lib [] output pretty w1 = (None, w2)" "files w2 output = Some bs"
    by blast
  with d show "\<exists>w2. Dump lib svc projectID jwtFile output fileFormat delimiter query proxy
                       pretty printFields timeout nocache w st = Some (None, w2, st1)
                 \<and> files w2 output = Some bs"
    by simp
qed

theorem Dump_csv_empty_result_witness:
  "Dump ex_lib (ex_query_svc [] ex_schema 2) ''p'' ''key.json'' ''out.csv'' ''csv'' ''''
     ''SELECT 1'' '''' False True 0 False ex_world 0
     = Some (Some (Panic ''index out of range''), ex_world, 1)
   \<and> map_option (\<lambda>(e, w2, s). (e, files w2 ''out.csv''))
       (Dump ex_lib (ex_query_svc [] ex_schema 2) ''p'' ''key.json'' ''out.csv'' ''json'' ''''
          ''SELECT 1'' '''' False True 0 False ex_world 0)
     = Some (None, Some [CHR ''['', CHR '']'', CHR 0x0A])"
proof -
  have q: "Jobs_Query (ex_query_svc [] ex_schema 2) ''p'' (Dump_conf ''SELECT 1'' 0 False) 0
      = (Inr \<lparr>QR_Errors = [], QR_JobReference = Some \<lparr>JobId = ''job_1'', ProjectId = ''p''\<rparr>,
            QR_PageToken = ''next'', QR_Rows = take 2 [],
            QR_Schema = Some \<lparr>Schema_Fields = ex_schema\<rparr>,
            QR_TotalRows = of_nat (length ([] :: unit iface list list))\<rparr>, Suc 0)"
    by (rule ex_query_svc_query)
  have e: "(if False then MarshalIndent ex_lib [] '''' [CHR 0x09] else Encode ex_lib [])
      = Inr [CHR ''['', CHR '']'', CHR 0x0A]"
    by (simp add: ex_lib_def ex_Encode_def ex_unsupported_def ex_json_def)
  note t = Dump_csv_empty_result [where lib = ex_lib and w = ex_world and ?w1.0 = ex_world
      and proxy = "''''" and jwtFile = "''key.json''" and ?output = "''out.csv''"
      and pretty = False and printFields = True and delimiter = "''''", OF _ _ _ _ _ ex_oauthClient q]
  from t [where fileFormat = "''csv''"] t [where fileFormat = "''json''"] e
  show ?thesis
    by (simp add: ex_ToLower ex_world_def) blast
qed

text \<open>
  Claim C7. A \<^verbatim>\<open>Dump\<close> that fails in \<^verbatim>\<open>dumpJSON\<close> is said to delete the output file
  before it returns the error. With \<^verbatim>\<open>pretty\<close> set, a failure of
  \<^verbatim>\<open>json.MarshalIndent\<close> returns the error after \<^verbatim>\<open>os.Create\<close> and without
  \<^verbatim>\<open>os.Remove\<close>: for a FLOAT column holding NaN, which the marshaller rejects, the
  pretty dump fails and leaves the created file behind, while the same dump without
  \<^verbatim>\<open>pretty\<close> fails and removes it.
\<close>

theorem Dump_pretty_json_failure_leaves_file:
  "map_option (\<lambda>(e, w2, s). (e, files w2 ''out.json''))
     (Dump ex_lib (ex_query_svc [[IString ''NaN'']] [TableFieldSchema ''x'' ''FLOAT'' []] 2)
        ''p'' ''key.json'' ''out.json'' ''json'' '''' ''SELECT x'' '''' True False 0 False
        ex_world 0)
     = Some (Some (Error ''json: unsupported value: NaN''), Some '''')
   \<and> map_option (\<lambda>(e, w2, s). (e, files w2 ''out.json''))
     (Dump ex_lib (ex_query_svc [[IString ''NaN'']] [TableFieldSchema ''x'' ''FLOAT'' []] 2)
        ''p'' ''key.json'' ''out.json'' ''json'' '''' ''SELECT x'' '''' False False 0 False
        ex_world 0)
     = Some (Some (Error ''json: unsupported value: NaN''), None)
   \<and> files ex_world ''out.json'' = None"
proof -
  have r: "toRows ex_lib [TableFieldSchema ''x'' ''FLOAT'' []] [[IString ''NaN'']]
      = Inr [[(''x'', VFloat64 None)]]"
    by (simp add: toRows_def toRows_cell_def ex_lib_def ex_ParseFloat_def)
  have d: "Dump_records ex_lib
      (ex_query_svc [[IString ''NaN'']] [TableFieldSchema ''x'' ''FLOAT'' []] 2)
      ''p'' ''key.json'' ''out.json'' ''json'' '''' ''SELECT x'' '''' 0 False ex_world 0
     = Some (Inr (''json'', '''', [[(''x'', VFloat64 None)]]), ex_world, 1)"
    by (simp add: Dump_records_def Let_def ex_ToLower ex_oauthClient ex_query_svc_query
          Dump_rows_def r)
  have j: "dumpJSON ex_lib [[(''x'', VFloat64 None)]] ''out.json'' True ex_world
      = (Some (Error ''json: unsupported value: NaN''),
         ex_world\<lparr>files := (files ex_world)(''out.json'' \<mapsto> '''')\<rparr>)"
    "dumpJSON ex_lib [[(''x'', VFloat64 None)]] ''out.json'' False ex_world
      = (Some (Error ''json: unsupported value: NaN''),
         os_Remove ''out.json'' (ex_world\<lparr>files := (files ex_world)(''out.json'' \<mapsto> '''')\<rparr>))"
    by (simp_all add: dumpJSON_def os_Create_def ex_lib_def ex_MarshalIndent_def ex_Encode_def
          ex_unsupported_def ex_world_def)
  show ?thesis
    by (simp add: Dump_json [OF d ex_ToLower(2)] j os_Remove_def) (simp add: ex_world_def)
qed

subsection \<open>Ensuring the dataset\<close>

lemma datasets_pages_stop:
  "datasets_pages svc pid did '''' st = Some (Inr False, st)"
  by (subst datasets_pages.simps) simp

lemma datasets_pages_found:
  "token \<noteq> '''' \<Longrightarrow> Datasets_List svc pid (Some token) st = (Inr res, st') \<Longrightarrow>
   scan_datasets (Datasets res) did = Inr True \<Longrightarrow>
   datasets_pages svc pid did token st = Some (Inr True, st')"
  by (subst datasets_pages.simps) simp

lemma datasets_pages_next:
  "token \<noteq> '''' \<Longrightarrow> Datasets_List svc pid (Some token) st = (Inr res, st') \<Longrightarrow>
   scan_datasets (Datasets res) did = Inr False \<Longrightarrow>
   datasets_pages svc pid did token st = datasets_pages svc pid did (NextPageToken res) st'"
  by (subst datasets_pages.simps) simp

lemma listed_datasets_pages:
  "listed svc pid did tok st st' \<Longrightarrow> tok = Some token \<Longrightarrow> token \<noteq> '''' \<Longrightarrow>
   datasets_pages svc pid did token st = Some (Inr True, st')"
proof (induction arbitrary: token rule: listed.induct)
  case (here tok st res st')
  then show ?case by (simp add: datasets_pages_found)
next
  case (later tok st res st1 st')
  from later.prems later.hyps(1,2)
  have "datasets_pages svc pid did token st = datasets_pages svc pid did (NextPageToken res) st1"
    by (simp add: datasets_pages_next)
  with later.IH [OF refl later.hyps(3)] show ?case by simp
qed

lemma unlisted_datasets_pages:
  "unlisted svc pid did tok st st' \<Longrightarrow> tok = Some token \<Longrightarrow> token \<noteq> '''' \<Longrightarrow>
   datasets_pages svc pid did token st = Some (Inr False, st')"
proof (induction arbitrary: token rule: unlisted.induct)
  case (last tok st res st')
  then have "datasets_pages svc pid did token st = datasets_pages svc pid did '''' st'"
    by (simp add: datasets_pages_next)
  then show ?case by (simp add: datasets_pages_stop)
next
  case (more tok st res st1 st')
  from more.prems more.hyps(1,2)
  have "datasets_pages svc pid did token st = datasets_pages svc pid did (NextPageToken res) st1"
    by (simp add: datasets_pages_next)
  with more.IH [OF refl more.hyps(3)] show ?case by simp
qed

lemma datasets_pages_result:
  assumes "datasets_pages svc pid did token st = Some y"
  shows "\<forall>found st'. y = (Inr found, st') \<longrightarrow>
    (if found then token \<noteq> '''' \<and> listed svc pid did (Some token) st st'
     else (token = '''' \<and> st' = st)
       \<or> (token \<noteq> '''' \<and> unlisted svc pid did (Some token) st st'))"
proof (rule datasets_pages.raw_induct
    [where P = "\<lambda>svc pid did token st y. \<forall>found st'. y = (Inr found, st') \<longrightarrow>
      (if found then token \<noteq> '''' \<and> listed svc pid did (Some token) st st'
       else (token = '''' \<and> st' = st)
       \<or> (token \<noteq> '''' \<and> unlisted svc pid did (Some token) st st'))",
     OF _ assms], goal_cases)
  case (1 pages svc pid did token st y)
  note IH = 1(1) and body = 1(2)
  show ?case
  proof (cases "token = ''''")
    case True
    with body show ?thesis by auto
  next
    case False
    show ?thesis
    proof (cases "Datasets_List svc pid (Some token) st")
      case (Pair r st1)
      show ?thesis
      proof (cases r)
        case (Inl err)
        with body False Pair show ?thesis by auto
      next
        case (Inr res)
        show ?thesis
        proof (cases "scan_datasets (Datasets res) did")
          case (Inl e)
          with body False Pair Inr show ?thesis by auto
        next
          case scan: (Inr found)
          show ?thesis
          proof (cases found)
            case True
            with body False Pair Inr scan show ?thesis
              by (auto intro: listed.here)
          next
            case nf: False
            with body \<open>token \<noteq> ''''\<close> Pair Inr scan
            have p: "pages svc pid did (NextPageToken res) st1 = Some y" by simp
            show ?thesis
            proof (intro allI impI)
              fix found' st'
              assume y: "y = (Inr found', st')"
              from IH [OF p] y have
                n: "if found' then NextPageToken res \<noteq> ''''
                      \<and> listed svc pid did (Some (NextPageToken res)) st1 st'
                    else (NextPageToken res = '''' \<and> st' = st1)
                      \<or> (NextPageToken res \<noteq> ''''
                          \<and> unlisted svc pid did (Some (NextPageToken res)) st1 st')"
                by blast
              show "if found' then token \<noteq> '''' \<and> listed svc pid did (Some token) st st'
                  else (token = '''' \<and> st' = st)
                    \<or> (token \<noteq> '''' \<and> unlisted svc pid did (Some token) st st')"
              proof (cases found')
                case True
                with n have l: "listed svc pid did (Some (NextPageToken res)) st1 st'"
                  and t: "NextPageToken res \<noteq> ''''" by simp_all
                from listed.later [OF _ _ t l] Pair Inr scan nf True \<open>token \<noteq> ''''\<close>
                show ?thesis by simp
              next
                case False
                with n consider "NextPageToken res = ''''" "st' = st1"
                  | "NextPageToken res \<noteq> ''''"
                    "unlisted svc pid did (Some (NextPageToken res)) st1 st'"
                  by auto
                then have "unlisted svc pid did (Some token) st st'"
                proof cases
                  case 1
                  with Pair Inr scan nf show ?thesis by (auto intro: unlisted.last)
                next
                  case 2
                  with Pair Inr scan nf show ?thesis by (auto intro: unlisted.more)
                qed
                with False \<open>token \<noteq> ''''\<close> show ?thesis by simp
              qed
            qed
          qed
        qed
      qed
    qed
  qed
qed

lemma ensure_listed:
  assumes "listed svc pid did None st st'"
  shows "datasetCreateIfNotExists svc pid did st = Some (None, st', 0)"
  using assms
proof (cases rule: listed.cases)
  case (here res)
  then show ?thesis by (simp add: datasetCreateIfNotExists_def)
next
  case (later res st1)
  from listed_datasets_pages [OF later(4) refl later(3)] later(1,2)
  show ?thesis by (simp add: datasetCreateIfNotExists_def)
qed

lemma ensure_result:
  assumes "datasetCreateIfNotExists svc pid did st = Some (r, st', n)"
  shows "n \<le> 1
    \<and> (n = 0 \<and> r = None \<longrightarrow> listed svc pid did None st st')
    \<and> (n = 1 \<longrightarrow> (\<exists>s. unlisted svc pid did None st s
                      \<and> Datasets_Insert svc pid did s = (case r of None \<Rightarrow> None
                           | Some e \<Rightarrow> (case e of Error m \<Rightarrow> Some m | Panic m \<Rightarrow> Some m), st')))"
proof (cases "Datasets_List svc pid None st")
  case (Pair x st1)
  show ?thesis
  proof (cases x)
    case (Inl err)
    with assms Pair show ?thesis by (auto simp: datasetCreateIfNotExists_def)
  next
    case (Inr res)
    show ?thesis
    proof (cases "scan_datasets (Datasets res) did")
      case (Inl e)
      with assms Pair Inr show ?thesis by (auto simp: datasetCreateIfNotExists_def)
    next
      case scan: (Inr found)
      show ?thesis
      proof (cases found)
        case True
        with assms Pair Inr scan show ?thesis
          by (auto simp: datasetCreateIfNotExists_def intro: listed.here)
      next
        case nf: False
        show ?thesis
        proof (cases "datasets_pages svc pid did (NextPageToken res) st1")
          case None
          with assms Pair Inr scan nf show ?thesis by (simp add: datasetCreateIfNotExists_def)
        next
          case (Some y)
          obtain z st2 where y: "y = (z, st2)" by (cases y)
          show ?thesis
          proof (cases z)
            case (Inl e)
            with assms Pair Inr scan nf Some y show ?thesis
              by (auto simp: datasetCreateIfNotExists_def)
          next
            case pg: (Inr found')
            from datasets_pages_result [OF Some] y pg have
              res: "if found' then NextPageToken res \<noteq> ''''
                      \<and> listed svc pid did (Some (NextPageToken res)) st1 st2
                    else (NextPageToken res = '''' \<and> st2 = st1)
                      \<or> (NextPageToken res \<noteq> ''''
                          \<and> unlisted svc pid did (Some (NextPageToken res)) st1 st2)"
              by blast
            show ?thesis
            proof (cases found')
              case True
              with res have "listed svc pid did None st st2"
                using Pair Inr scan nf by (auto intro: listed.later)
              with assms Pair Inr scan nf Some y pg True show ?thesis
                by (auto simp: datasetCreateIfNotExists_def)
            next
              case False
              with res have u: "unlisted svc pid did None st st2"
                using Pair Inr scan nf by (auto intro: unlisted.last unlisted.more)
              obtain e st3 where i: "Datasets_Insert svc pid did st2 = (e, st3)"
                by (cases "Datasets_Insert svc pid did st2")
              with assms Pair Inr scan nf Some y pg False
              have "n = 1" "st' = st3" "r = map_option Error e"
                by (auto simp: datasetCreateIfNotExists_def split: option.splits)
              with u i show ?thesis by (cases e) auto
            qed
          qed
        qed
      qed
    qed
  qed
qed

lemma ex_scan:
  "scan_datasets (map (\<lambda>i. \<lparr>Datasets_DatasetReference = Some \<lparr>DatasetId = i\<rparr>\<rparr>) xs) did
     = Inr (did \<in> set xs)"
  by (induction xs) auto

lemma ex_store_List:
  "Datasets_List (ex_store ro) pid tok ids =
     (Inr (ex_page ids (case tok of None \<Rightarrow> 0 | Some t \<Rightarrow> length t)), ids)"
  by (simp add: ex_store_def)

lemma ex_store_listed_from:
  "did \<in> set (drop k ids) \<Longrightarrow> (case tok of None \<Rightarrow> 0 | Some t \<Rightarrow> length t) = k \<Longrightarrow>
   listed (ex_store ro) pid did tok ids ids"
proof (induction "length ids - k" arbitrary: k tok rule: less_induct)
  case less
  let ?res = "ex_page ids k"
  from less.prems(2) have l: "Datasets_List (ex_store ro) pid tok ids = (Inr ?res, ids)"
    by (simp add: ex_store_List)
  have s: "scan_datasets (Datasets ?res) did = Inr (did \<in> set (take 2 (drop k ids)))"
    by (simp add: ex_page_def ex_scan)
  show ?case
  proof (cases "did \<in> set (take 2 (drop k ids))")
    case True
    with l s show ?thesis by (auto intro: listed.here)
  next
    case False
    have "drop k ids = take 2 (drop k ids) @ drop (k + 2) ids"
      by (metis append_take_drop_id drop_drop add.commute)
    with less.prems(1) False have d: "did \<in> set (drop (k + 2) ids)"
      by (metis Un_iff set_append)
    then have lt: "k + 2 < length ids"
      by (cases "k + 2 < length ids") auto
    then have t: "NextPageToken ?res = replicate (k + 2) CHR ''+''"
      and ne: "NextPageToken ?res \<noteq> ''''"
      by (simp_all add: ex_page_def)
    from lt have "length ids - (k + 2) < length ids - k" by arith
    from less.hyps [OF this d, of "Some (NextPageToken ?res)"] t
    have "listed (ex_store ro) pid did (Some (NextPageToken ?res)) ids ids" by simp
    from listed.later [OF l _ ne this] s False show ?thesis by simp
  qed
qed

lemma ex_store_listed_same:
  "listed (ex_store ro) pid did tok ids ids' \<Longrightarrow> ids' = ids"
  by (induction rule: listed.induct) (auto simp: ex_store_List)

text \<open>
  Claim C8, as stated, fails: two consecutive calls can make two creation calls. When
  the creation call fails (here a store that refuses to create), the dataset stays
  absent from the listing and the next call issues the creation call again.
\<close>

theorem ensure_twice_two_creation_calls:
  "ensure_twice (ex_store True) ''p'' ''d'' [''a'', ''b'', ''c''] =
     Some (Some (Error ''access denied''), Some (Error ''access denied''),
           [''a'', ''b'', ''c''], 2)"
proof -
  have l: "Datasets_List (ex_store True) ''p'' tok [''a'', ''b'', ''c''] =
      (Inr (ex_page [''a'', ''b'', ''c''] (case tok of None \<Rightarrow> 0 | Some t \<Rightarrow> length t)),
       [''a'', ''b'', ''c''])" for tok
    by (simp add: ex_store_def)
  have p: "datasets_pages (ex_store True) ''p'' ''d'' ''++'' [''a'', ''b'', ''c'']
      = Some (Inr False, [''a'', ''b'', ''c''])"
    by (subst datasets_pages.simps) (simp add: l ex_page_def datasets_pages_stop)
  have "datasetCreateIfNotExists (ex_store True) ''p'' ''d'' [''a'', ''b'', ''c'']
      = Some (Some (Error ''access denied''), [''a'', ''b'', ''c''], 1)"
    by (simp add: datasetCreateIfNotExists_def l ex_page_def p) (simp add: ex_store_def)
  then show ?thesis by (simp add: ensure_twice_def)
qed

text \<open>
  Claim C8, amended. When the listing, page after page, holds the dataset id, the call
  makes no creation call and succeeds. A call makes at most one creation call, and
  makes it only when every page of the listing, up to the last, is served and none holds
  the id. When the first of two consecutive calls succeeds, against a service that
  lists a dataset once it has created it and that keeps listing what it lists, the
  second call succeeds without a creation call: the two calls make at most one.
\<close>

theorem ensure_idempotent:
  "(\<forall>st'. listed svc pid did None st st' \<longrightarrow>
       datasetCreateIfNotExists svc pid did st = Some (None, st', 0))
   \<and> (\<forall>r st' n. datasetCreateIfNotExists svc pid did st = Some (r, st', n) \<longrightarrow>
         n \<le> 1 \<and> (n = 1 \<longrightarrow> (\<exists>s. unlisted svc pid did None st s)))
   \<and> ((\<forall>s s'. Datasets_Insert svc pid did s = (None, s') \<longrightarrow>
            (\<exists>s''. listed svc pid did None s' s''))
        \<and> (\<forall>s s'. listed svc pid did None s s' \<longrightarrow> (\<exists>s''. listed svc pid did None s' s''))
       \<longrightarrow> (\<forall>st1 n1. datasetCreateIfNotExists svc pid did st = Some (None, st1, n1) \<longrightarrow>
              n1 \<le> 1
              \<and> (\<exists>st2. datasetCreateIfNotExists svc pid did st1 = Some (None, st2, 0)
                    \<and> ensure_twice svc pid did st = Some (None, None, st2, n1))))"
proof (intro conjI allI impI)
  fix st'
  assume "listed svc pid did None st st'"
  then show "datasetCreateIfNotExists svc pid did st = Some (None, st', 0)"
    by (rule ensure_listed)
next
  fix r st' n
  assume "datasetCreateIfNotExists svc pid did st = Some (r, st', n)"
  from ensure_result [OF this] show "n \<le> 1" by simp
next
  fix r st' n
  assume "datasetCreateIfNotExists svc pid did st = Some (r, st', n)" and "n = 1"
  with ensure_result [OF this(1)] show "\<exists>s. unlisted svc pid did None st s" by blast
next
  fix st1 n1
  assume h: "(\<forall>s s'. Datasets_Insert svc pid did s = (None, s') \<longrightarrow>
            (\<exists>s''. listed svc pid did None s' s''))
        \<and> (\<forall>s s'. listed svc pid did None s s' \<longrightarrow> (\<exists>s''. listed svc pid did None s' s''))"
    and c: "datasetCreateIfNotExists svc pid did st = Some (None, st1, n1)"
  from ensure_result [OF c] show "n1 \<le> 1" by simp
  from ensure_result [OF c] have
    "n1 = 0 \<and> listed svc pid did None st st1
     \<or> (\<exists>s. Datasets_Insert svc pid did s = (None, st1))"
    by (cases "n1 = 0") auto
  with h obtain st2 where "listed svc pid did None st1 st2" by blast
  from ensure_listed [OF this]
  have "datasetCreateIfNotExists svc pid did st1 = Some (None, st2, 0)" .
  with c show "\<exists>st2. datasetCreateIfNotExists svc pid did st1 = Some (None, st2, 0)
                    \<and> ensure_twice svc pid did st = Some (None, None, st2, n1)"
    by (simp add: ensure_twice_def)
qed

theorem ensure_idempotent_witness:
  "listed (ex_store False) ''p'' ''c'' None [''a'', ''b'', ''c''] [''a'', ''b'', ''c'']
   \<and> datasetCreateIfNotExists (ex_store False) ''p'' ''c'' [''a'', ''b'', ''c'']
       = Some (None, [''a'', ''b'', ''c''], 0)
   \<and> datasetCreateIfNotExists (ex_store False) ''p'' ''d'' [''a'', ''b'', ''c'']
       = Some (None, [''a'', ''b'', ''c'', ''d''], 1)
   \<and> unlisted (ex_store False) ''p'' ''d'' None [''a'', ''b'', ''c''] [''a'', ''b'', ''c'']
   \<and> ensure_twice (ex_store False) ''p'' ''d'' [''a'', ''b'', ''c'']
       = Some (None, None, [''a'', ''b'', ''c'', ''d''], 1)"
proof -
  let ?svc = "ex_store False :: (unit, string list) bq"
  have lc: "listed ?svc ''p'' ''c'' None [''a'', ''b'', ''c''] [''a'', ''b'', ''c'']"
    by (rule ex_store_listed_from [where k = 0]) simp_all
  have u: "unlisted ?svc ''p'' ''d'' None [''a'', ''b'', ''c''] [''a'', ''b'', ''c'']"
  proof (rule unlisted.more)
    show "Datasets_List ?svc ''p'' None [''a'', ''b'', ''c'']
        = (Inr (ex_page [''a'', ''b'', ''c''] 0), [''a'', ''b'', ''c''])"
      by (simp add: ex_store_List)
    show "scan_datasets (Datasets (ex_page [''a'', ''b'', ''c''] 0)) ''d'' = Inr False"
      by (simp add: ex_page_def)
    show "NextPageToken (ex_page [''a'', ''b'', ''c''] 0) \<noteq> ''''"
      by (simp add: ex_page_def)
    show "unlisted ?svc ''p'' ''d'' (Some (NextPageToken (ex_page [''a'', ''b'', ''c''] 0)))
        [''a'', ''b'', ''c''] [''a'', ''b'', ''c'']"
    proof (rule unlisted.last)
      show "Datasets_List ?svc ''p'' (Some (NextPageToken (ex_page [''a'', ''b'', ''c''] 0)))
          [''a'', ''b'', ''c''] = (Inr (ex_page [''a'', ''b'', ''c''] 2), [''a'', ''b'', ''c''])"
        by (simp add: ex_store_List ex_page_def)
      show "scan_datasets (Datasets (ex_page [''a'', ''b'', ''c''] 2)) ''d'' = Inr False"
        by (simp add: ex_page_def)
      show "NextPageToken (ex_page [''a'', ''b'', ''c''] 2) = ''''"
        by (simp add: ex_page_def)
    qed
  qed
  have i: "Datasets_Insert ?svc ''p'' ''d'' s = (None, s @ [''d''])" for s
    by (simp add: ex_store_def)
  have h1: "\<forall>s s'. Datasets_Insert ?svc ''p'' ''d'' s = (None, s') \<longrightarrow>
            (\<exists>s''. listed ?svc ''p'' ''d'' None s' s'')"
  proof (intro allI impI)
    fix s s' :: "string list"
    assume "Datasets_Insert ?svc ''p'' ''d'' s = (None, s')"
    with i have "s' = s @ [''d'']" by simp
    then have "''d'' \<in> set (drop 0 s')" by simp
    from ex_store_listed_from [OF this, of None]
    show "\<exists>s''. listed ?svc ''p'' ''d'' None s' s''" by auto
  qed
  have h2: "\<forall>s s'. listed ?svc ''p'' ''d'' None s s' \<longrightarrow> (\<exists>s''. listed ?svc ''p'' ''d'' None s' s'')"
    using ex_store_listed_same by blast
  have c: "datasetCreateIfNotExists ?svc ''p'' ''d'' [''a'', ''b'', ''c'']
      = Some (None, [''a'', ''b'', ''c'', ''d''], 1)"
    using unlisted_datasets_pages [of ?svc "''p''" "''d''" "Some ''++''" "[''a'', ''b'', ''c'']"
        "[''a'', ''b'', ''c'']" "''++''"] u
    by (auto simp: datasetCreateIfNotExists_def ex_store_List ex_page_def i
          elim!: unlisted.cases [of ?svc "''p''" "''d''" None])
  note t = ensure_idempotent [of ?svc "''p''" "''d''" "[''a'', ''b'', ''c'']"]
  from t h1 h2 c have "\<exists>st2. datasetCreateIfNotExists ?svc ''p'' ''d'' [''a'', ''b'', ''c'', ''d'']
        = Some (None, st2, 0)
      \<and> ensure_twice ?svc ''p'' ''d'' [''a'', ''b'', ''c''] = Some (None, None, st2, 1)"
    by blast
  moreover have "datasetCreateIfNotExists ?svc ''p'' ''d'' [''a'', ''b'', ''c'', ''d'']
      = Some (None, [''a'', ''b'', ''c'', ''d''], 0)"
    by (rule ensure_listed) (rule ex_store_listed_from [where k = 0], simp_all)
  ultimately have e: "ensure_twice ?svc ''p'' ''d'' [''a'', ''b'', ''c'']
      = Some (None, None, [''a'', ''b'', ''c'', ''d''], 1)"
    by auto
  from ensure_idempotent [of ?svc "''p''" "''c''" "[''a'', ''b'', ''c'']"] lc
  have "datasetCreateIfNotExists ?svc ''p'' ''c'' [''a'', ''b'', ''c'']
      = Some (None, [''a'', ''b'', ''c''], 0)"
    by blast
  with lc u c e show ?thesis by simp
qed

end
